theory Spec2Isabelle
  imports Main
begin

section \<open>JavaScript values as the summarizer sees them\<close>

text \<open>
  The manifest store handed to \<^verbatim>\<open>createCredentialDetails\<close> is typed \<^verbatim>\<open>unknown\<close> and is
  read through casts only, so the model works on untyped JavaScript values as they come
  out of the verification SDK (JSON data plus \<^verbatim>\<open>undefined\<close> for a missing property).

  Modelling conventions:
  \<^item> a string is a \<^typ>\<open>string\<close>, one \<^typ>\<open>char\<close> per code unit; text outside ASCII is
    carried as its UTF-8 bytes, none of which is an ASCII letter, digit or blank;
  \<^item> a number is an integer \<^typ>\<open>int\<close> (fractions, NaN and infinities are not
    represented); \<^verbatim>\<open>String\<close> renders it in decimal, as JavaScript does for integers
    of magnitude below \<open>10\<^sup>2\<^sup>1\<close>;
  \<^item> an object is an association list of its own properties, the first binding of a
    key being the one that is read; members inherited from the built-in prototypes are
    not represented, apart from \<^verbatim>\<open>length\<close> and the indices of arrays and strings;
  \<^item> a thrown \<^verbatim>\<open>TypeError\<close> is the value \<open>Inl TypeError\<close>.
\<close>

datatype jsval =
    JUndefined
  | JNull
  | JBool bool
  | JNum int
  | JStr string
  | JArr "jsval list"
  | JObj "(string \<times> jsval) list"

datatype error = TypeError

fun truthy :: "jsval \<Rightarrow> bool" where
  "truthy JUndefined = False"
| "truthy JNull = False"
| "truthy (JBool b) = b"
| "truthy (JNum n) = (n \<noteq> 0)"
| "truthy (JStr s) = (s \<noteq> [])"
| "truthy (JArr xs) = True"
| "truthy (JObj kvs) = True"

text \<open>The operator \<^verbatim>\<open>a || b\<close>.\<close>

definition js_or :: "jsval \<Rightarrow> jsval \<Rightarrow> jsval" where
  "js_or a b = (if truthy a then a else b)"

definition nullish :: "jsval \<Rightarrow> bool" where
  "nullish v = (v = JUndefined \<or> v = JNull)"

subsection \<open>Conversion to string\<close>

definition digit_char :: "nat \<Rightarrow> char" where
  "digit_char d = ''0123456789'' ! d"

fun show_nat :: "nat \<Rightarrow> string" where
  "show_nat n = (if n < 10 then [digit_char n] else show_nat (n div 10) @ [digit_char (n mod 10)])"

declare show_nat.simps [simp del]

definition show_int :: "int \<Rightarrow> string" where
  "show_int i = (if i < 0 then CHR ''-'' # show_nat (nat (- i)) else show_nat (nat i))"

fun join :: "string \<Rightarrow> string list \<Rightarrow> string" where
  "join sep [] = []"
| "join sep [s] = s"
| "join sep (s # t # ss) = s @ sep @ join sep (t # ss)"

text \<open>\<^verbatim>\<open>String(v)\<close>; an array joins its elements with commas, \<^verbatim>\<open>null\<close> and
  \<^verbatim>\<open>undefined\<close> elements giving the empty string.\<close>

fun js_String :: "jsval \<Rightarrow> string" where
  "js_String JUndefined = ''undefined''"
| "js_String JNull = ''null''"
| "js_String (JBool b) = (if b then ''true'' else ''false'')"
| "js_String (JNum n) = show_int n"
| "js_String (JStr s) = s"
| "js_String (JArr xs) =
     join '','' (map (\<lambda>x. if x = JUndefined \<or> x = JNull then [] else js_String x) xs)"
| "js_String (JObj kvs) = ''[object Object]''"

subsection \<open>Property access\<close>

definition is_digit :: "char \<Rightarrow> bool" where
  "is_digit c = (c \<in> set ''0123456789'')"

definition digit_val :: "char \<Rightarrow> nat" where
  "digit_val c = (of_char c :: nat) - 48"

definition read_nat :: "string \<Rightarrow> nat" where
  "read_nat s = foldl (\<lambda>acc c. 10 * acc + digit_val c) 0 s"

text \<open>A property key is an array index when it is the canonical decimal numeral of a
  natural number.\<close>

definition array_index :: "string \<Rightarrow> nat option" where
  "array_index k =
     (if k \<noteq> [] \<and> list_all is_digit k \<and> (k = ''0'' \<or> hd k \<noteq> CHR ''0'')
      then Some (read_nat k) else None)"

text \<open>\<^verbatim>\<open>v[k]\<close> on a receiver that is neither \<^verbatim>\<open>null\<close> nor \<^verbatim>\<open>undefined\<close>.\<close>

fun js_prop :: "jsval \<Rightarrow> string \<Rightarrow> jsval" where
  "js_prop (JObj kvs) k = (case map_of kvs k of Some v \<Rightarrow> v | None \<Rightarrow> JUndefined)"
| "js_prop (JArr xs) k =
     (if k = ''length'' then JNum (int (length xs))
      else case array_index k of
             Some i \<Rightarrow> if i < length xs then xs ! i else JUndefined
           | None \<Rightarrow> JUndefined)"
| "js_prop (JStr s) k =
     (if k = ''length'' then JNum (int (length s))
      else case array_index k of
             Some i \<Rightarrow> if i < length s then JStr [s ! i] else JUndefined
           | None \<Rightarrow> JUndefined)"
| "js_prop v k = JUndefined"

text \<open>\<^verbatim>\<open>v.k\<close> in general: reading a property of \<^verbatim>\<open>null\<close> or \<^verbatim>\<open>undefined\<close> throws.\<close>

definition get :: "jsval \<Rightarrow> string \<Rightarrow> error + jsval" where
  "get v k = (if nullish v then Inl TypeError else Inr (js_prop v k))"

text \<open>What a \<^verbatim>\<open>for ... of\<close> loop runs over: the elements of an array, the characters of
  a string; any other value reaching the loop is not iterable.\<close>

fun iterate :: "jsval \<Rightarrow> error + jsval list" where
  "iterate (JArr xs) = Inr xs"
| "iterate (JStr s) = Inr (map (\<lambda>c. JStr [c]) s)"
| "iterate v = Inl TypeError"

text \<open>The comparison \<^verbatim>\<open>v > 0\<close>. A string operand is converted to a number first; the
  model recognises plain decimal numerals there.\<close>

fun js_gt0 :: "jsval \<Rightarrow> bool" where
  "js_gt0 (JNum n) = (0 < n)"
| "js_gt0 (JBool b) = b"
| "js_gt0 (JStr s) = (s \<noteq> [] \<and> list_all is_digit s \<and> 0 < read_nat s)"
| "js_gt0 (JArr xs) =
     (let s = js_String (JArr xs) in s \<noteq> [] \<and> list_all is_digit s \<and> 0 < read_nat s)"
| "js_gt0 v = False"

section \<open>String helpers\<close>

definition startsWith :: "string \<Rightarrow> string \<Rightarrow> bool" where
  "startsWith s p = (take (length p) s = p)"

text \<open>\<^verbatim>\<open>s.replace(pat, rep)\<close> with a string pattern: the first occurrence only.\<close>

fun replace_first :: "string \<Rightarrow> string \<Rightarrow> string \<Rightarrow> string" where
  "replace_first pat rep [] = (if pat = [] then rep else [])"
| "replace_first pat rep (c # cs) =
     (if startsWith (c # cs) pat then rep @ drop (length pat) (c # cs)
      else c # replace_first pat rep cs)"

text \<open>\<^verbatim>\<open>s.replace(/c/g, rep)\<close> for a single literal character \<open>c\<close>.\<close>

definition replace_char :: "char \<Rightarrow> string \<Rightarrow> string \<Rightarrow> string" where
  "replace_char c rep s = concat (map (\<lambda>d. if d = c then rep else [d]) s)"

section \<open>Action labels\<close>

definition actionMap :: "(string \<times> string) list" where
  "actionMap =
    [(''c2pa.created'', ''Created''),
     (''c2pa.opened'', ''Opened''),
     (''c2pa.edited'', ''Edited''),
     (''c2pa.converted'', ''Converted''),
     (''c2pa.resized'', ''Resized''),
     (''c2pa.cropped'', ''Cropped''),
     (''c2pa.color_adjustments'', ''Color Adjusted''),
     (''c2pa.filtered'', ''Filtered''),
     (''c2pa.drawing'', ''Drawing''),
     (''c2pa.placed'', ''Placed''),
     (''c2pa.removed'', ''Removed''),
     (''c2pa.repackaged'', ''Repackaged''),
     (''c2pa.transcoded'', ''Transcoded''),
     (''c2pa.unknown'', ''Unknown Action'')]"

definition formatAction :: "string \<Rightarrow> string" where
  "formatAction action =
     (let fallback = replace_char CHR ''_'' '' '' (replace_first ''c2pa.'' [] action)
      in case map_of actionMap action of
           Some l \<Rightarrow> if l \<noteq> [] then l else fallback
         | None \<Rightarrow> fallback)"

section \<open>Author and action extraction\<close>

fun extractAuthor_loop :: "jsval list \<Rightarrow> error + string option" where
  "extractAuthor_loop [] = Inr None"
| "extractAuthor_loop (a # rest) =
     (case get a ''label'' of
        Inl e \<Rightarrow> Inl e
      | Inr label \<Rightarrow>
          if label = JStr ''stds.schema-org.CreativeWork'' \<and> truthy (js_prop a ''data'') then
            (let data = js_prop a ''data'';
                 author = js_prop data ''author''
             in if truthy author \<and> js_gt0 (js_prop author ''length'') then
                  (let firstAuthor = js_prop author ''0''
                   in case get firstAuthor ''name'' of
                        Inl e \<Rightarrow> Inl e
                      | Inr name \<Rightarrow>
                          if truthy name then Inr (Some (js_String name))
                          else extractAuthor_loop rest)
                else extractAuthor_loop rest)
          else extractAuthor_loop rest)"

definition extractAuthor :: "jsval \<Rightarrow> error + string option" where
  "extractAuthor assertions =
     (case iterate assertions of
        Inl e \<Rightarrow> Inl e
      | Inr xs \<Rightarrow> extractAuthor_loop xs)"

text \<open>The inner loop of \<^verbatim>\<open>extractActions\<close>, pushing onto the array \<open>actions\<close>.\<close>

fun push_actions :: "jsval list \<Rightarrow> string list \<Rightarrow> error + string list" where
  "push_actions [] actions = Inr actions"
| "push_actions (action # rest) actions =
     (case get action ''action'' of
        Inl e \<Rightarrow> Inl e
      | Inr v \<Rightarrow>
          if truthy v then push_actions rest (actions @ [js_String v])
          else push_actions rest actions)"

fun extractActions_loop :: "jsval list \<Rightarrow> string list \<Rightarrow> error + string list" where
  "extractActions_loop [] actions = Inr actions"
| "extractActions_loop (a # rest) actions =
     (case get a ''label'' of
        Inl e \<Rightarrow> Inl e
      | Inr label \<Rightarrow>
          if label = JStr ''c2pa.actions'' \<and> truthy (js_prop a ''data'') then
            (let data = js_prop a ''data'';
                 actionList = js_prop data ''actions''
             in if truthy actionList then
                  (case iterate actionList of
                     Inl e \<Rightarrow> Inl e
                   | Inr entries \<Rightarrow>
                       (case push_actions entries actions of
                          Inl e \<Rightarrow> Inl e
                        | Inr actions' \<Rightarrow> extractActions_loop rest actions'))
                else extractActions_loop rest actions)
          else extractActions_loop rest actions)"

definition extractActions :: "jsval \<Rightarrow> error + string list" where
  "extractActions assertions =
     (case iterate assertions of
        Inl e \<Rightarrow> Inl e
      | Inr xs \<Rightarrow> extractActions_loop xs [])"

section \<open>Validation codes\<close>

definition is_lower :: "char \<Rightarrow> bool" where
  "is_lower c = (c \<in> set ''abcdefghijklmnopqrstuvwxyz'')"

definition is_upper :: "char \<Rightarrow> bool" where
  "is_upper c = (c \<in> set ''ABCDEFGHIJKLMNOPQRSTUVWXYZ'')"

text \<open>The class \<^verbatim>\<open>\s\<close>, within ASCII: tab, line feed, vertical tab, form feed, carriage return, space.\<close>

definition is_space :: "char \<Rightarrow> bool" where
  "is_space c = (c \<in> set [CHR 0x09, CHR 0x0A, CHR 0x0B, CHR 0x0C, CHR 0x0D, CHR 0x20])"

text \<open>The class \<^verbatim>\<open>\w\<close>.\<close>

definition is_word :: "char \<Rightarrow> bool" where
  "is_word c = (is_lower c \<or> is_upper c \<or> is_digit c \<or> c = CHR ''_'')"

text \<open>\<^verbatim>\<open>toLowerCase\<close> and \<^verbatim>\<open>toUpperCase\<close> on one character: the letters of ASCII are
  mapped, every other character stays.\<close>

definition to_lower :: "char \<Rightarrow> char" where
  "to_lower c =
     (case map_of (zip ''ABCDEFGHIJKLMNOPQRSTUVWXYZ'' ''abcdefghijklmnopqrstuvwxyz'') c of
        Some d \<Rightarrow> d
      | None \<Rightarrow> c)"

definition to_upper :: "char \<Rightarrow> char" where
  "to_upper c =
     (case map_of (zip ''abcdefghijklmnopqrstuvwxyz'' ''ABCDEFGHIJKLMNOPQRSTUVWXYZ'') c of
        Some d \<Rightarrow> d
      | None \<Rightarrow> c)"

text \<open>\<^verbatim>\<open>.replace(/([a-z])([A-Z])/g, '$1 $2')\<close>: the scan resumes after the two
  characters of a match.\<close>

fun camel_space :: "string \<Rightarrow> string" where
  "camel_space (a # b # cs) =
     (if is_lower a \<and> is_upper b then a # CHR '' '' # b # camel_space cs
      else a # camel_space (b # cs))"
| "camel_space cs = cs"

text \<open>\<^verbatim>\<open>.replace(/^\w/, c => c.toUpperCase())\<close>.\<close>

fun upper_first :: "string \<Rightarrow> string" where
  "upper_first [] = []"
| "upper_first (c # cs) = (if is_word c then to_upper c # cs else c # cs)"

text \<open>The separator put in place of a dot: a blank, U+203A (in UTF-8), a blank.\<close>

definition dot_separator :: string where
  "dot_separator = [CHR 0x20, CHR 0xE2, CHR 0x80, CHR 0xBA, CHR 0x20]"

definition formatValidationCode :: "string \<Rightarrow> string" where
  "formatValidationCode code =
     upper_first (map to_lower (camel_space
       (replace_char CHR ''_'' '' '' (replace_char CHR ''.'' dot_separator code))))"

section \<open>Markup helpers\<close>

text \<open>A piece of a template literal, given by its lines.\<close>

definition lns :: "string list \<Rightarrow> string" where
  "lns ls = join [CHR 0x0A] ls"

text \<open>\<^verbatim>\<open>escapeHtml\<close> sets the text of a fresh element and reads its markup back: the
  serialisation of a text node replaces the ampersand, the angle brackets and the
  no-break space U+00A0 (in UTF-8 the bytes C2 A0).\<close>

definition escape_char :: "char \<Rightarrow> string" where
  "escape_char c =
     (if c = CHR ''&'' then ''&amp;''
      else if c = CHR ''<'' then ''&lt;''
      else if c = CHR ''>'' then ''&gt;''
      else [c])"

fun escapeHtml :: "string \<Rightarrow> string" where
  "escapeHtml [] = []"
| "escapeHtml [c] = escape_char c"
| "escapeHtml (c # d # cs) =
     (if c = CHR 0xC2 \<and> d = CHR 0xA0 then ''&nbsp;'' @ escapeHtml cs
      else escape_char c @ escapeHtml (d # cs))"

text \<open>A value of type \<^verbatim>\<open>string | null\<close> used as a condition.\<close>

fun str_truthy :: "string option \<Rightarrow> bool" where
  "str_truthy None = False"
| "str_truthy (Some s) = (s \<noteq> [])"

text \<open>\<^verbatim>\<open>v ? String(v) : null\<close>.\<close>

definition string_or_null :: "jsval \<Rightarrow> string option" where
  "string_or_null v = (if truthy v then Some (js_String v) else None)"

text \<open>\<^verbatim>\<open>v?.length || 0\<close>.\<close>

definition length_or_0 :: "jsval \<Rightarrow> jsval" where
  "length_or_0 v = js_or (if nullish v then JUndefined else js_prop v ''length'') (JNum 0)"

text \<open>\<^verbatim>\<open>Object.keys(v).length\<close>.\<close>

fun object_keys_length :: "jsval \<Rightarrow> nat" where
  "object_keys_length (JObj kvs) = length (remdups (map fst kvs))"
| "object_keys_length (JArr xs) = length xs"
| "object_keys_length (JStr s) = length s"
| "object_keys_length v = 0"

text \<open>\<^verbatim>\<open>s.split(sep)\<close> for a one-character separator.\<close>

fun split_char :: "char \<Rightarrow> string \<Rightarrow> string list" where
  "split_char sep [] = [[]]"
| "split_char sep (c # cs) =
     (if c = sep then [] # split_char sep cs
      else (case split_char sep cs of
              p # ps \<Rightarrow> (c # p) # ps
            | [] \<Rightarrow> [[c]]))"

section \<open>The details panel\<close>

subsection \<open>Validation section\<close>

text \<open>The callback of \<^verbatim>\<open>validationStatus?.filter\<close>:
  \<^verbatim>\<open>s.code && !String(s.code).startsWith('claim')\<close>, read as a condition.\<close>

definition is_issue :: "jsval \<Rightarrow> error + bool" where
  "is_issue status =
     (case get status ''code'' of
        Inl e \<Rightarrow> Inl e
      | Inr code \<Rightarrow> Inr (truthy code \<and> \<not> startsWith (js_String code) ''claim''))"

fun filter_issues :: "jsval list \<Rightarrow> error + jsval list" where
  "filter_issues [] = Inr []"
| "filter_issues (s # rest) =
     (case is_issue s of
        Inl e \<Rightarrow> Inl e
      | Inr keep \<Rightarrow>
          (case filter_issues rest of
             Inl e \<Rightarrow> Inl e
           | Inr ys \<Rightarrow> Inr (if keep then s # ys else ys)))"

text \<open>\<^verbatim>\<open>validationStatus?.filter(...) || []\<close>: only \<^verbatim>\<open>null\<close> and \<^verbatim>\<open>undefined\<close> skip the
  call, and only an array has a \<^verbatim>\<open>filter\<close> method to call.\<close>

fun validationIssues :: "jsval \<Rightarrow> error + jsval list" where
  "validationIssues JUndefined = Inr []"
| "validationIssues JNull = Inr []"
| "validationIssues (JArr xs) = filter_issues xs"
| "validationIssues v = Inl TypeError"

definition hasErrors :: "jsval list \<Rightarrow> bool" where
  "hasErrors issues = (length issues > 0)"

text \<open>One element of \<^verbatim>\<open>validationIssues.map(...)\<close>; an element that passed the filter is
  neither \<^verbatim>\<open>null\<close> nor \<^verbatim>\<open>undefined\<close>.\<close>

definition issue_code :: "jsval \<Rightarrow> string" where
  "issue_code i =
     (if truthy (js_prop i ''code'') then js_String (js_prop i ''code'') else ''Unknown issue'')"

definition issue_explanation :: "jsval \<Rightarrow> string" where
  "issue_explanation i =
     (if truthy (js_prop i ''explanation'') then js_String (js_prop i ''explanation'') else [])"

definition issueHtml :: "jsval \<Rightarrow> string" where
  \<open>issueHtml i =
     (let code = issue_code i;
          explanation = issue_explanation i
      in concat
        [lns ['''', ''            <div class="validation-issue">'', ''              <span class="issue-code">''],
         escapeHtml (formatValidationCode code),
         lns [''</span>'', ''              ''],
         (if explanation \<noteq> []
          then concat [''<span class="issue-explanation">'', escapeHtml explanation, ''</span>'']
          else []),
         lns ['''', ''            </div>'', ''          '']])\<close>

definition validationIssuesHtml :: "jsval list \<Rightarrow> string" where
  \<open>validationIssuesHtml issues =
     (if hasErrors issues
      then concat
        [lns ['''', ''      <div class="validation-issues">'', ''        ''],
         concat (map issueHtml issues),
         lns ['''', ''      </div>'', ''    '']]
      else [])\<close>

definition validationHtml :: "jsval list \<Rightarrow> string" where
  \<open>validationHtml issues =
     concat
       [lns ['''', ''    <div class="credential-section validation-section ''],
        (if hasErrors issues then ''has-errors'' else ''valid''),
        lns [''">'', ''      <div class="validation-badge">'', ''        ''],
        (if hasErrors issues
         then concat
           [lns ['''', ''          <svg xmlns="http://www.w3.org/2000/svg" viewBox="0 0 24 24" fill="none" stroke="currentColor" stroke-width="2" stroke-linecap="round" stroke-linejoin="round">'', ''            <circle cx="12" cy="12" r="10"/>'', ''            <line x1="12" y1="8" x2="12" y2="12"/>'', ''            <line x1="12" y1="16" x2="12.01" y2="16"/>'', ''          </svg>'', ''          <span>''],
            show_nat (length issues),
            '' Issue'',
            (if length issues \<noteq> 1 then ''s'' else []),
            lns [''</span>'', ''        '']]
         else
            lns ['''', ''          <svg xmlns="http://www.w3.org/2000/svg" viewBox="0 0 24 24" fill="none" stroke="currentColor" stroke-width="2" stroke-linecap="round" stroke-linejoin="round">'', ''            <path d="M22 11.08V12a10 10 0 1 1-5.93-9.14"/>'', ''            <polyline points="22 4 12 14.01 9 11.01"/>'', ''          </svg>'', ''          <span>Content Credentials Verified</span>'', ''        '']),
        lns ['''', ''      </div>'', ''      ''],
        validationIssuesHtml issues,
        lns ['''', ''    </div>'', ''  '']]\<close>

subsection \<open>Signer section\<close>

text \<open>\<^verbatim>\<open>formatDate\<close> renders a time stamp in the browser's locale and time zone; it is a
  parameter \<open>formatDate\<close> of the model.\<close>

definition signature_issuer :: "jsval \<Rightarrow> string" where
  "signature_issuer signatureInfo =
     (if truthy (js_prop signatureInfo ''issuer'')
      then js_String (js_prop signatureInfo ''issuer'') else ''Unknown Issuer'')"

definition signature_signedAt :: "(string \<Rightarrow> string) \<Rightarrow> jsval \<Rightarrow> string option" where
  "signature_signedAt formatDate signatureInfo =
     (if truthy (js_prop signatureInfo ''time'')
      then Some (formatDate (js_String (js_prop signatureInfo ''time''))) else None)"

definition signature_certSerial :: "jsval \<Rightarrow> string option" where
  "signature_certSerial signatureInfo =
     string_or_null (js_or (js_prop signatureInfo ''cert_serial_number'')
                           (js_prop signatureInfo ''certSerialNumber''))"

text \<open>The item of a section that shows a label and an optional value; it is written out
  five times in the source (date signed, author, title, format, application), the
  author's value carrying one more class.\<close>

definition credential_item :: "string \<Rightarrow> string \<Rightarrow> string option \<Rightarrow> string" where
  \<open>credential_item label cls v =
     (if str_truthy v
      then concat
        [lns ['''', ''          <div class="credential-item">'', ''            <span class="item-label">''],
         label,
         lns [''</span>'', ''            <span class="item-value''],
         cls,
         ''">'',
         escapeHtml (case v of Some s \<Rightarrow> s | None \<Rightarrow> []),
         lns [''</span>'', ''          </div>'', ''          '']]
      else [])\<close>

text \<open>The serial number \<open>certSerial\<close> is computed by the source and not displayed.\<close>

definition signerHtml :: "(string \<Rightarrow> string) \<Rightarrow> jsval \<Rightarrow> string" where
  \<open>signerHtml formatDate signatureInfo =
     (if truthy signatureInfo then
        (let issuer = signature_issuer signatureInfo;
             signedAt = signature_signedAt formatDate signatureInfo;
             certSerial = signature_certSerial signatureInfo
         in concat
           [lns ['''', ''      <div class="credential-section">'', ''        <h3 class="section-title">'', ''          <svg xmlns="http://www.w3.org/2000/svg" viewBox="0 0 24 24" fill="none" stroke="currentColor" stroke-width="2" stroke-linecap="round" stroke-linejoin="round">'', ''            <path d="M12 22s8-4 8-10V5l-8-3-8 3v7c0 6 8 10 8 10z"/>'', ''          </svg>'', ''          Signed By'', ''        </h3>'', ''        <div class="section-content">'', ''          <div class="credential-item issuer-item">'', ''            <span class="item-label">Issuer</span>'', ''            <span class="item-value issuer-value">''],
            escapeHtml issuer,
            lns [''</span>'', ''          </div>'', ''          ''],
            credential_item ''Date Signed'' [] signedAt,
            lns ['''', ''        </div>'', ''      </div>'', ''    '']])
      else [])\<close>

subsection \<open>Content section\<close>

definition contentHtml :: "string option \<Rightarrow> string option \<Rightarrow> string option \<Rightarrow> string" where
  \<open>contentHtml title format author =
     (if str_truthy title \<or> str_truthy format \<or> str_truthy author
      then concat
        [lns ['''', ''      <div class="credential-section">'', ''        <h3 class="section-title">'', ''          <svg xmlns="http://www.w3.org/2000/svg" viewBox="0 0 24 24" fill="none" stroke="currentColor" stroke-width="2" stroke-linecap="round" stroke-linejoin="round">'', ''            <rect x="3" y="3" width="18" height="18" rx="2" ry="2"/>'', ''            <circle cx="8.5" cy="8.5" r="1.5"/>'', ''            <polyline points="21 15 16 10 5 21"/>'', ''          </svg>'', ''          Content Information'', ''        </h3>'', ''        <div class="section-content">'', ''          ''],
         credential_item ''Author'' '' author-value'' author,
         lns ['''', ''          ''],
         credential_item ''Title'' [] title,
         lns ['''', ''          ''],
         credential_item ''Format'' [] format,
         lns ['''', ''        </div>'', ''      </div>'', ''    '']]
      else [])\<close>

subsection \<open>Process section\<close>

text \<open>The application name: \<^verbatim>\<open>claimGenerator.split(' ')[0]\<close> with underscores and
  slashes replaced by blanks.\<close>

definition appName_of :: "string \<Rightarrow> string" where
  "appName_of claimGenerator =
     (let parts = split_char CHR '' '' claimGenerator
      in replace_char CHR ''/'' '' '' (replace_char CHR ''_'' '' '' (hd parts)))"

definition appName :: "string option \<Rightarrow> string option" where
  "appName claimGenerator =
     (if str_truthy claimGenerator then map_option appName_of claimGenerator
      else claimGenerator)"

definition processHtml :: "string option \<Rightarrow> string list \<Rightarrow> string" where
  \<open>processHtml claimGenerator actions =
     (if str_truthy claimGenerator \<or> length actions > 0
      then concat
        [lns ['''', ''      <div class="credential-section">'', ''        <h3 class="section-title">'', ''          <svg xmlns="http://www.w3.org/2000/svg" viewBox="0 0 24 24" fill="none" stroke="currentColor" stroke-width="2" stroke-linecap="round" stroke-linejoin="round">'', ''            <circle cx="12" cy="12" r="3"/>'', ''            <path d="M19.4 15a1.65 1.65 0 0 0 .33 1.82l.06.06a2 2 0 0 1 0 2.83 2 2 0 0 1-2.83 0l-.06-.06a1.65 1.65 0 0 0-1.82-.33 1.65 1.65 0 0 0-1 1.51V21a2 2 0 0 1-2 2 2 2 0 0 1-2-2v-.09A1.65 1.65 0 0 0 9 19.4a1.65 1.65 0 0 0-1.82.33l-.06.06a2 2 0 0 1-2.83 0 2 2 0 0 1 0-2.83l.06-.06a1.65 1.65 0 0 0 .33-1.82 1.65 1.65 0 0 0-1.51-1H3a2 2 0 0 1-2-2 2 2 0 0 1 2-2h.09A1.65 1.65 0 0 0 4.6 9a1.65 1.65 0 0 0-.33-1.82l-.06-.06a2 2 0 0 1 0-2.83 2 2 0 0 1 2.83 0l.06.06a1.65 1.65 0 0 0 1.82.33H9a1.65 1.65 0 0 0 1-1.51V3a2 2 0 0 1 2-2 2 2 0 0 1 2 2v.09a1.65 1.65 0 0 0 1 1.51 1.65 1.65 0 0 0 1.82-.33l.06-.06a2 2 0 0 1 2.83 0 2 2 0 0 1 0 2.83l-.06.06a1.65 1.65 0 0 0-.33 1.82V9a1.65 1.65 0 0 0 1.51 1H21a2 2 0 0 1 2 2 2 2 0 0 1-2 2h-.09a1.65 1.65 0 0 0-1.51 1z"/>'', ''          </svg>'', ''          Process'', ''        </h3>'', ''        <div class="section-content">'', ''          ''],
         credential_item ''App/Device Used'' [] (appName claimGenerator),
         lns ['''', ''          ''],
         (if length actions > 0
          then concat
            [lns ['''', ''          <div class="credential-item">'', ''            <span class="item-label">Actions</span>'', ''            <div class="actions-list">'', ''              ''],
             concat (map (\<lambda>action. concat [''<span class="action-tag">'', escapeHtml (formatAction action), ''</span>'']) actions),
             lns ['''', ''            </div>'', ''          </div>'', ''          '']]
          else []),
         lns ['''', ''        </div>'', ''      </div>'', ''    '']]
      else [])\<close>

subsection \<open>Ingredients section\<close>

definition ingredient_title :: "jsval \<Rightarrow> nat \<Rightarrow> string" where
  "ingredient_title ing index =
     (if truthy (js_prop ing ''title'') then js_String (js_prop ing ''title'')
      else ''Ingredient '' @ show_nat (index + 1))"

definition ingredient_format :: "jsval \<Rightarrow> string" where
  "ingredient_format ing =
     (if truthy (js_prop ing ''format'') then js_String (js_prop ing ''format'') else [])"

text \<open>The callback of \<^verbatim>\<open>ingredients.map\<close>; reading \<^verbatim>\<open>ing.title\<close> throws on a \<^verbatim>\<open>null\<close>
  element.\<close>

definition ingredientHtml :: "jsval \<Rightarrow> nat \<Rightarrow> error + string" where
  \<open>ingredientHtml ing index =
     (case get ing ''title'' of
        Inl e \<Rightarrow> Inl e
      | Inr t \<Rightarrow>
         (let ingTitle = ingredient_title ing index;
              ingFormat = ingredient_format ing
          in Inr (concat
            [lns ['''', ''                <div class="ingredient-item">'', ''                  <span class="ingredient-name">''],
             escapeHtml ingTitle,
             lns [''</span>'', ''                  ''],
             (if ingFormat \<noteq> []
              then concat [''<span class="ingredient-format">'', escapeHtml ingFormat, ''</span>'']
              else []),
             lns ['''', ''                </div>'', ''              '']])))\<close>

fun ingredients_map :: "jsval list \<Rightarrow> nat \<Rightarrow> error + string list" where
  "ingredients_map [] index = Inr []"
| "ingredients_map (ing # rest) index =
     (case ingredientHtml ing index of
        Inl e \<Rightarrow> Inl e
      | Inr h \<Rightarrow>
          (case ingredients_map rest (index + 1) of
             Inl e \<Rightarrow> Inl e
           | Inr hs \<Rightarrow> Inr (h # hs)))"

text \<open>Only an array has a \<^verbatim>\<open>map\<close> method to call.\<close>

definition ingredientsHtml :: "jsval \<Rightarrow> error + string" where
  \<open>ingredientsHtml ingredients =
     (if truthy ingredients \<and> js_gt0 (js_prop ingredients ''length'') then
        (case ingredients of
           JArr xs \<Rightarrow>
             (case ingredients_map xs 0 of
                Inl e \<Rightarrow> Inl e
              | Inr items \<Rightarrow> Inr (concat
                 [lns ['''', ''      <div class="credential-section">'', ''        <h3 class="section-title">'', ''          <svg xmlns="http://www.w3.org/2000/svg" viewBox="0 0 24 24" fill="none" stroke="currentColor" stroke-width="2" stroke-linecap="round" stroke-linejoin="round">'', ''            <line x1="8" y1="6" x2="21" y2="6"/>'', ''            <line x1="8" y1="12" x2="21" y2="12"/>'', ''            <line x1="8" y1="18" x2="21" y2="18"/>'', ''            <line x1="3" y1="6" x2="3.01" y2="6"/>'', ''            <line x1="3" y1="12" x2="3.01" y2="12"/>'', ''            <line x1="3" y1="18" x2="3.01" y2="18"/>'', ''          </svg>'', ''          Ingredients (''],
                  js_String (js_prop ingredients ''length''),
                  lns ['')'', ''        </h3>'', ''        <div class="section-content">'', ''          <div class="ingredients-list">'', ''            ''],
                  concat items,
                  lns ['''', ''          </div>'', ''        </div>'', ''      </div>'', ''    '']]))
         | _ \<Rightarrow> Inl TypeError)
      else Inr [])\<close>

subsection \<open>Counts\<close>

definition plural :: "bool \<Rightarrow> string" where
  "plural p = (if p then ''s'' else [])"

definition statsHtml :: "jsval \<Rightarrow> jsval \<Rightarrow> jsval \<Rightarrow> string" where
  \<open>statsHtml manifests assertions ingredients =
     (let manifestCount = (if truthy manifests then object_keys_length manifests else 0)
      in concat
        [lns ['''', ''    <div class="credential-section stats-section">'', ''      <div class="stats-grid">'', ''        <div class="stat-item">'', ''          <span class="stat-value">''],
         show_nat manifestCount,
         lns [''</span>'', ''          <span class="stat-label">Manifest''],
         plural (manifestCount \<noteq> 1),
         lns [''</span>'', ''        </div>'', ''        <div class="stat-item">'', ''          <span class="stat-value">''],
         js_String (length_or_0 assertions),
         lns [''</span>'', ''          <span class="stat-label">Assertion''],
         plural (length_or_0 assertions \<noteq> JNum 1),
         lns [''</span>'', ''        </div>'', ''        <div class="stat-item">'', ''          <span class="stat-value">''],
         js_String (length_or_0 ingredients),
         lns [''</span>'', ''          <span class="stat-label">Ingredient''],
         plural (length_or_0 ingredients \<noteq> JNum 1),
         lns [''</span>'', ''        </div>'', ''      </div>'', ''    </div>'', ''  '']])\<close>

subsection \<open>The whole transformation\<close>

text \<open>The locals of \<^verbatim>\<open>createCredentialDetails\<close> that read the store under both spellings.\<close>

definition activeManifestKey :: "jsval \<Rightarrow> jsval" where
  "activeManifestKey store = js_or (js_prop store ''active_manifest'') (js_prop store ''activeManifest'')"

definition manifests :: "jsval \<Rightarrow> jsval" where
  "manifests store = js_prop store ''manifests''"

definition activeManifest :: "jsval \<Rightarrow> jsval" where
  "activeManifest store =
     (if truthy (activeManifestKey store) \<and> truthy (manifests store)
      then js_prop (manifests store) (js_String (activeManifestKey store))
      else JUndefined)"

definition validationStatus :: "jsval \<Rightarrow> jsval" where
  "validationStatus store = js_or (js_prop store ''validation_status'') (js_prop store ''validationStatus'')"

definition signatureInfo :: "jsval \<Rightarrow> jsval" where
  "signatureInfo manifest =
     js_or (js_prop manifest ''signature_info'') (js_prop manifest ''signatureInfo'')"

definition claimGenerator :: "jsval \<Rightarrow> string option" where
  "claimGenerator manifest =
     string_or_null (js_or (js_prop manifest ''claim_generator'')
                           (js_prop manifest ''claimGenerator''))"

definition noDetailsHtml :: string where
  \<open>noDetailsHtml = ''<p class="no-details">No manifest details available.</p>''\<close>

text \<open>The result is the markup left in the panel \<^verbatim>\<open>credentialDetails.innerHTML\<close>, or the
  exception that ended the call (the panel then stays empty).\<close>

definition createCredentialDetails :: "(string \<Rightarrow> string) \<Rightarrow> jsval \<Rightarrow> error + string" where
  "createCredentialDetails formatDate manifestStore =
     (case get manifestStore ''active_manifest'' of
        Inl e \<Rightarrow> Inl e
      | Inr k \<Rightarrow>
     (let store = manifestStore;
          manifest = activeManifest store
      in if \<not> truthy manifest then Inr noDetailsHtml
         else
     (case validationIssues (validationStatus store) of
        Inl e \<Rightarrow> Inl e
      | Inr issues \<Rightarrow>
     (let title = string_or_null (js_prop manifest ''title'');
          format = string_or_null (js_prop manifest ''format'');
          assertions = js_prop manifest ''assertions''
      in
     (case (if truthy assertions then extractAuthor assertions else Inr None) of
        Inl e \<Rightarrow> Inl e
      | Inr author \<Rightarrow>
     (case (if truthy assertions then extractActions assertions else Inr []) of
        Inl e \<Rightarrow> Inl e
      | Inr actions \<Rightarrow>
     (let ingredients = js_prop manifest ''ingredients''
      in
     (case ingredientsHtml ingredients of
        Inl e \<Rightarrow> Inl e
      | Inr ingredientsMarkup \<Rightarrow>
          Inr (signerHtml formatDate (signatureInfo manifest)
               @ contentHtml title format author
               @ processHtml (claimGenerator manifest) actions
               @ ingredientsMarkup
               @ statsHtml (manifests store) assertions ingredients
               @ validationHtml issues)))))))))"

section \<open>The JSON highlighter\<close>

text \<open>
  \<^verbatim>\<open>syntaxHighlight\<close> replaces every match of the pattern
  \<^verbatim>\<open>("(\\u[a-zA-Z0-9]{4}|\\[^u]|[^\\"])*"(\s*:)?|\b(true|false|null)\b|-?\d+(?:\.\d*)?(?:[eE][+\-]?\d+)?)\<close>
  by a \<^verbatim>\<open>span\<close> around the match; both source files define it with the same text.
  The three alternatives start with different characters, so at most one of them applies
  at a position; each is matched greedily, as the regular-expression engine does.
\<close>

definition is_alnum :: "char \<Rightarrow> bool" where
  "is_alnum c = (is_lower c \<or> is_upper c \<or> is_digit c)"

definition quote_char :: char where
  "quote_char = CHR 0x22"

definition backslash_char :: char where
  "backslash_char = CHR 0x5C"

text \<open>The length of the longest run of \<^verbatim>\<open>(\\u[a-zA-Z0-9]{4}|\\[^u]|[^\\"])*\<close>. A unit never
  starts with the quote, so no shorter run can be followed by the closing quote and
  backtracking into the run never helps.\<close>

fun string_units :: "string \<Rightarrow> nat" where
  "string_units [] = 0"
| "string_units (c # cs) =
     (if c = backslash_char then
        (case cs of
           [] \<Rightarrow> 0
         | d # ds \<Rightarrow>
             if d = CHR ''u'' then
               (if 4 \<le> length ds \<and> list_all is_alnum (take 4 ds)
                then 6 + string_units (drop 4 ds) else 0)
             else 2 + string_units ds)
      else if c = quote_char then 0
      else 1 + string_units cs)"

text \<open>The length of the optional group \<^verbatim>\<open>(\s*:)?\<close>.\<close>

definition colon_suffix :: "string \<Rightarrow> nat" where
  "colon_suffix s =
     (case dropWhile is_space s of
        [] \<Rightarrow> 0
      | c # r \<Rightarrow> if c = CHR '':'' then length (takeWhile is_space s) + 1 else 0)"

text \<open>First alternative: a string, with the colon that may follow it.\<close>

definition match_string :: "string \<Rightarrow> nat option" where
  "match_string s =
     (case s of
        [] \<Rightarrow> None
      | c # cs \<Rightarrow>
          if c = quote_char then
            (let n = string_units cs
             in case drop n cs of
                  [] \<Rightarrow> None
                | q # after \<Rightarrow>
                    if q = quote_char then Some (1 + n + 1 + colon_suffix after) else None)
          else None)"

text \<open>\<^verbatim>\<open>\b\<close> after a word character: the text ends or goes on with a character that is
  not a word character.\<close>

definition ends_word :: "string \<Rightarrow> bool" where
  "ends_word s = (case s of [] \<Rightarrow> True | c # r \<Rightarrow> \<not> is_word c)"

text \<open>Second alternative: \<^verbatim>\<open>\b(true|false|null)\b\<close>; \<open>pw\<close> tells whether the character
  before the position is a word character.\<close>

definition match_literal :: "bool \<Rightarrow> string \<Rightarrow> nat option" where
  "match_literal pw s =
     (if pw then None
      else if startsWith s ''true'' \<and> ends_word (drop 4 s) then Some 4
      else if startsWith s ''false'' \<and> ends_word (drop 5 s) then Some 5
      else if startsWith s ''null'' \<and> ends_word (drop 4 s) then Some 4
      else None)"

definition digits_len :: "string \<Rightarrow> nat" where
  "digits_len s = length (takeWhile is_digit s)"

text \<open>The length of the optional group \<^verbatim>\<open>(?:\.\d*)?\<close>.\<close>

definition fraction_len :: "string \<Rightarrow> nat" where
  "fraction_len s =
     (case s of
        [] \<Rightarrow> 0
      | c # r \<Rightarrow> if c = CHR ''.'' then 1 + digits_len r else 0)"

text \<open>The length of the optional group \<^verbatim>\<open>(?:[eE][+\-]?\d+)?\<close>.\<close>

definition exponent_len :: "string \<Rightarrow> nat" where
  "exponent_len s =
     (case s of
        [] \<Rightarrow> 0
      | e # r \<Rightarrow>
          if e = CHR ''e'' \<or> e = CHR ''E'' then
            (let sg = (case r of
                         [] \<Rightarrow> 0
                       | c # r' \<Rightarrow> if c = CHR ''+'' \<or> c = CHR ''-'' then 1 else (0::nat));
                 d = digits_len (drop sg r)
             in if d = 0 then 0 else 1 + sg + d)
          else 0)"

text \<open>Third alternative: a number.\<close>

definition match_number :: "string \<Rightarrow> nat option" where
  "match_number s =
     (let sign = (if startsWith s ''-'' then 1 else (0::nat));
          n_int = digits_len (drop sign s)
      in if n_int = 0 then None
         else
           (let n_frac = fraction_len (drop (sign + n_int) s);
                n_exp = exponent_len (drop (sign + n_int + n_frac) s)
            in Some (sign + n_int + n_frac + n_exp)))"

text \<open>The match at a position, if any: the alternatives in the order of the pattern.\<close>

definition match_at :: "bool \<Rightarrow> string \<Rightarrow> nat option" where
  "match_at pw s =
     (case match_string s of
        Some n \<Rightarrow> Some n
      | None \<Rightarrow>
          (case match_literal pw s of
             Some n \<Rightarrow> Some n
           | None \<Rightarrow> match_number s))"

text \<open>\<^verbatim>\<open>/p/.test(m)\<close> for a literal pattern without anchors: \<open>p\<close> occurs in \<open>m\<close>.\<close>

definition occurs_in :: "string \<Rightarrow> string \<Rightarrow> bool" where
  "occurs_in p m = list_ex (\<lambda>i. startsWith (drop i m) p) [0 ..< Suc (length m)]"

text \<open>The callback: the class of a match.\<close>

definition token_class :: "string \<Rightarrow> string" where
  "token_class m =
     (if startsWith m [quote_char] then
        (if m \<noteq> [] \<and> last m = CHR '':'' then ''json-key'' else ''json-string'')
      else if occurs_in ''true'' m \<or> occurs_in ''false'' m then ''json-boolean''
      else if occurs_in ''null'' m then ''json-null''
      else ''json-number'')"

definition span :: "string \<Rightarrow> string" where
  \<open>span m = ''<span class="'' @ token_class m @ ''">'' @ m @ ''</span>''\<close>

text \<open>The global replacement. After a match the search resumes behind it; a match of
  length zero (the pattern has none) would be replaced and the search moved on by one
  character.\<close>

fun highlight_from :: "bool \<Rightarrow> string \<Rightarrow> string" where
  "highlight_from pw [] = []"
| "highlight_from pw (c # cs) =
     (case match_at pw (c # cs) of
        None \<Rightarrow> c # highlight_from (is_word c) cs
      | Some n \<Rightarrow>
          if n = 0 then span [] @ c # highlight_from (is_word c) cs
          else span (take n (c # cs))
               @ highlight_from (is_word (last (take n (c # cs)))) (drop n (c # cs)))"

definition syntaxHighlight :: "string \<Rightarrow> string" where
  "syntaxHighlight json = highlight_from False json"

section \<open>Notions used in the statements\<close>

text \<open>Predicates that delimit the inputs a statement speaks of, and readings of the
  specification that are compared with the functions above.\<close>

subsection \<open>Application name\<close>

text \<open>The application name as the specification words it: the text up to the first
  blank character of any kind, underscores and slashes replaced by spaces.\<close>

definition appName_by_whitespace :: "string \<Rightarrow> string" where
  "appName_by_whitespace g =
     map (\<lambda>c. if c = CHR ''_'' \<or> c = CHR ''/'' then CHR '' '' else c)
         (takeWhile (\<lambda>c. \<not> is_space c) g)"

subsection \<open>Validation entries\<close>




subsection \<open>Actions\<close>






subsection \<open>Authors\<close>






subsection \<open>Well-formed manifest stores\<close>





subsection \<open>The two spellings of a store\<close>

text \<open>The camelCase spelling of a store written in snake_case: the keys
  \<^verbatim>\<open>active_manifest\<close> and \<^verbatim>\<open>validation_status\<close> of the store, \<^verbatim>\<open>signature_info\<close> and
  \<^verbatim>\<open>claim_generator\<close> of each manifest and \<^verbatim>\<open>cert_serial_number\<close> of each signature info
  are renamed; everything else stays.\<close>

definition rename_key :: "string \<Rightarrow> string \<Rightarrow> (string \<times> jsval) list \<Rightarrow> (string \<times> jsval) list" where
  "rename_key old new kvs = map (\<lambda>(k, v). (if k = old then new else k, v)) kvs"

definition map_field :: "string \<Rightarrow> (jsval \<Rightarrow> jsval) \<Rightarrow> (string \<times> jsval) list \<Rightarrow> (string \<times> jsval) list" where
  "map_field key f kvs = map (\<lambda>(k, v). (k, if k = key then f v else v)) kvs"

fun camel_signature :: "jsval \<Rightarrow> jsval" where
  "camel_signature (JObj kvs) = JObj (rename_key ''cert_serial_number'' ''certSerialNumber'' kvs)"
| "camel_signature v = v"

fun camel_manifest :: "jsval \<Rightarrow> jsval" where
  "camel_manifest (JObj kvs) =
     JObj (rename_key ''claim_generator'' ''claimGenerator''
            (rename_key ''signature_info'' ''signatureInfo''
              (map_field ''signature_info'' camel_signature kvs)))"
| "camel_manifest v = v"

fun camel_manifests :: "jsval \<Rightarrow> jsval" where
  "camel_manifests (JObj kvs) = JObj (map (\<lambda>(k, m). (k, camel_manifest m)) kvs)"
| "camel_manifests v = v"

fun camel_store :: "jsval \<Rightarrow> jsval" where
  "camel_store (JObj kvs) =
     JObj (rename_key ''validation_status'' ''validationStatus''
            (rename_key ''active_manifest'' ''activeManifest''
              (map_field ''manifests'' camel_manifests kvs)))"
| "camel_store v = v"

text \<open>A store is written in snake_case when none of the camelCase keys occurs where
  it would be read, and its validation status is a list or absent.\<close>

fun has_key :: "string \<Rightarrow> jsval \<Rightarrow> bool" where
  "has_key k (JObj kvs) = (k \<in> set (map fst kvs))"
| "has_key k v = False"

definition snake_manifest :: "jsval \<Rightarrow> bool" where
  "snake_manifest m =
     (\<not> has_key ''signatureInfo'' m \<and> \<not> has_key ''claimGenerator'' m
      \<and> \<not> has_key ''certSerialNumber'' (js_prop m ''signature_info''))"

fun snake_manifests :: "jsval \<Rightarrow> bool" where
  "snake_manifests (JObj kvs) = list_all (\<lambda>(k, m). snake_manifest m) kvs"
| "snake_manifests v = True"

definition list_or_absent :: "jsval \<Rightarrow> bool" where
  "list_or_absent v = (case v of JArr xs \<Rightarrow> True | _ \<Rightarrow> nullish v)"

definition snake_store :: "jsval \<Rightarrow> bool" where
  "snake_store s =
     (\<not> has_key ''activeManifest'' s \<and> \<not> has_key ''validationStatus'' s
      \<and> snake_manifests (js_prop s ''manifests'')
      \<and> list_or_absent (js_prop s ''validation_status''))"

subsection \<open>Tokens of serialized JSON\<close>

text \<open>The lexical structure of serialized JSON, as the specification speaks of it. A
  string is a quote, a run of items and a quote; an item is a plain character, an escaped
  character or a \<^verbatim>\<open>\u\<close> escape with four hexadecimal digits.\<close>

datatype string_item = Plain char | Escape char | Unicode string

fun item_text :: "string_item \<Rightarrow> string" where
  "item_text (Plain c) = [c]"
| "item_text (Escape c) = [backslash_char, c]"
| "item_text (Unicode h) = backslash_char # CHR ''u'' # h"

definition is_hex :: "char \<Rightarrow> bool" where
  "is_hex c = (is_digit c \<or> c \<in> set ''abcdefABCDEF'')"

fun item_ok :: "string_item \<Rightarrow> bool" where
  "item_ok (Plain c) = (c \<noteq> quote_char \<and> c \<noteq> backslash_char)"
| "item_ok (Escape c) =
     (c \<in> set [quote_char, backslash_char, CHR ''/'', CHR ''b'', CHR ''f'', CHR ''n'',
               CHR ''r'', CHR ''t''])"
| "item_ok (Unicode h) = (length h = 4 \<and> list_all is_hex h)"

definition string_text :: "string_item list \<Rightarrow> string" where
  "string_text items = quote_char # concat (map item_text items) @ [quote_char]"

text \<open>A token is a string, a key (a string, blanks and the colon), a number (sign,
  integer digits, optional fraction digits, optional exponent with its letter, sign and
  digits), a literal, or a single character of the text between tokens: a blank, a brace,
  a bracket or a comma.\<close>

datatype json_token =
    TString "string_item list"
  | TKey "string_item list" string
  | TNumber bool string "string option" "(char \<times> string \<times> string) option"
  | TTrue
  | TFalse
  | TNull
  | TPunct char

fun token_text :: "json_token \<Rightarrow> string" where
  "token_text (TString items) = string_text items"
| "token_text (TKey items ws) = string_text items @ ws @ '':''"
| "token_text (TNumber neg ip frac ex) =
     (if neg then ''-'' else []) @ ip
     @ (case frac of None \<Rightarrow> [] | Some f \<Rightarrow> CHR ''.'' # f)
     @ (case ex of None \<Rightarrow> [] | Some (e, sg, ds) \<Rightarrow> e # sg @ ds)"
| "token_text TTrue = ''true''"
| "token_text TFalse = ''false''"
| "token_text TNull = ''null''"
| "token_text (TPunct c) = [c]"

definition is_punct_char :: "char \<Rightarrow> bool" where
  "is_punct_char c = (is_space c \<or> c \<in> set ''{}[],'')"

fun token_ok :: "json_token \<Rightarrow> bool" where
  "token_ok (TString items) = list_all item_ok items"
| "token_ok (TKey items ws) = (list_all item_ok items \<and> list_all is_space ws)"
| "token_ok (TNumber neg ip frac ex) =
     (ip \<noteq> [] \<and> list_all is_digit ip
      \<and> (case frac of None \<Rightarrow> True | Some f \<Rightarrow> list_all is_digit f)
      \<and> (case ex of
            None \<Rightarrow> True
          | Some (e, sg, ds) \<Rightarrow>
              (e = CHR ''e'' \<or> e = CHR ''E'') \<and> sg \<in> set [[], ''+'', ''-'']
              \<and> ds \<noteq> [] \<and> list_all is_digit ds))"
| "token_ok (TPunct c) = is_punct_char c"
| "token_ok t = True"

fun is_atom :: "json_token \<Rightarrow> bool" where
  "is_atom (TNumber neg ip frac ex) = True"
| "is_atom TTrue = True"
| "is_atom TFalse = True"
| "is_atom TNull = True"
| "is_atom t = False"

fun is_punct :: "json_token \<Rightarrow> bool" where
  "is_punct (TPunct c) = True"
| "is_punct t = False"

text \<open>In serialized JSON a number or a literal is followed by text between tokens, or
  ends the input.\<close>

fun delimited :: "json_token list \<Rightarrow> bool" where
  "delimited (t # u # ts) = ((is_atom t \<longrightarrow> is_punct u) \<and> delimited (u # ts))"
| "delimited ts = True"

definition json_text :: "json_token list \<Rightarrow> string" where
  "json_text ts = concat (map token_text ts)"

text \<open>The markup the specification asks for: every token in a \<^verbatim>\<open>span\<close> whose class names
  its category, the text between tokens as it is.\<close>

definition tagged :: "string \<Rightarrow> string \<Rightarrow> string" where
  \<open>tagged cls m = ''<span class="'' @ cls @ ''">'' @ m @ ''</span>''\<close>

fun token_markup :: "json_token \<Rightarrow> string" where
  "token_markup (TString items) = tagged ''json-string'' (token_text (TString items))"
| "token_markup (TKey items ws) = tagged ''json-key'' (token_text (TKey items ws))"
| "token_markup (TNumber neg ip frac ex) = tagged ''json-number'' (token_text (TNumber neg ip frac ex))"
| "token_markup TTrue = tagged ''json-boolean'' ''true''"
| "token_markup TFalse = tagged ''json-boolean'' ''false''"
| "token_markup TNull = tagged ''json-null'' ''null''"
| "token_markup (TPunct c) = [c]"

definition json_markup :: "json_token list \<Rightarrow> string" where
  "json_markup ts = concat (map token_markup ts)"

section \<open>Properties of the summarizer and the highlighter\<close>

subsection \<open>Helper facts on strings\<close>

lemma split_char_nonempty: "split_char sep s \<noteq> []"
  by (induction s) (auto split: list.splits)

lemma hd_split_char: "hd (split_char sep s) = takeWhile (\<lambda>c. c \<noteq> sep) s"
  by (induction s) (auto split: list.splits simp: split_char_nonempty)

lemma replace_char_single: "replace_char c [d] s = map (\<lambda>x. if x = c then d else x) s"
  by (induction s) (auto simp: replace_char_def)

subsection \<open>Absent active manifest\<close>



subsection \<open>Application name\<close>

text \<open>
  Claim C8, as stated (the claim-generator string is split on whitespace), fails on a
  string whose first blank is a tab: the source splits on the space character only.
\<close>

theorem appName_splits_on_space_only:
  "appName_of [CHR ''a'', CHR 0x09, CHR ''b''] = [CHR ''a'', CHR 0x09, CHR ''b'']
 \<and> appName_by_whitespace [CHR ''a'', CHR 0x09, CHR ''b''] = ''a''
 \<and> appName_of [CHR ''a'', CHR 0x09, CHR ''b''] \<noteq> appName_by_whitespace [CHR ''a'', CHR 0x09, CHR ''b'']"
  by (simp add: appName_of_def appName_by_whitespace_def is_space_def replace_char_def)

text \<open>
  Claim C8, amended. For every claim-generator string the application name is the text
  before the first space character (U+0020), with every underscore and every slash
  replaced by a space, and nothing else changed.
\<close>

theorem appName_first_space_token:
  "appName_of g =
     map (\<lambda>c. if c = CHR ''_'' \<or> c = CHR ''/'' then CHR '' '' else c)
         (takeWhile (\<lambda>c. c \<noteq> CHR '' '') g)
   \<and> appName (Some g) = Some (appName_of g)"
  by (auto simp: appName_of_def appName_def hd_split_char replace_char_single Let_def)

subsection \<open>Fallback between the two spellings\<close>

text \<open>
  Claim C9. The lookup under two spellings goes by truthiness: whenever the snake_case
  property holds a falsy value (absent, \<^verbatim>\<open>null\<close>, the empty string, \<^verbatim>\<open>false\<close>, zero), the
  value read is the one of the camelCase property. This holds for the active-manifest
  key, the validation status, the signature info, the claim generator and the
  certificate serial number.
\<close>

theorem dual_lookup_falls_back_on_falsy:
  "(\<not> truthy (js_prop store ''active_manifest'') \<longrightarrow>
      activeManifestKey store = js_prop store ''activeManifest'')
 \<and> (\<not> truthy (js_prop store ''validation_status'') \<longrightarrow>
      validationStatus store = js_prop store ''validationStatus'')
 \<and> (\<not> truthy (js_prop m ''signature_info'') \<longrightarrow>
      signatureInfo m = js_prop m ''signatureInfo'')
 \<and> (\<not> truthy (js_prop m ''claim_generator'') \<longrightarrow>
      claimGenerator m = string_or_null (js_prop m ''claimGenerator''))
 \<and> (\<not> truthy (js_prop si ''cert_serial_number'') \<longrightarrow>
      signature_certSerial si = string_or_null (js_prop si ''certSerialNumber''))"
  by (simp add: activeManifestKey_def validationStatus_def signatureInfo_def claimGenerator_def
      signature_certSerial_def js_or_def)

theorem dual_lookup_falls_back_on_falsy_witness:
  "activeManifestKey (JObj [(''active_manifest'', JStr ''''), (''activeManifest'', JStr ''m''),
                            (''validation_status'', JNull), (''validationStatus'', JArr [])]) = JStr ''m''
 \<and> validationStatus (JObj [(''active_manifest'', JStr ''''), (''activeManifest'', JStr ''m''),
                            (''validation_status'', JNull), (''validationStatus'', JArr [])]) = JArr []
 \<and> signatureInfo (JObj [(''signature_info'', JBool False), (''signatureInfo'', JObj []),
                        (''claim_generator'', JNum 0), (''claimGenerator'', JStr ''app'')]) = JObj []
 \<and> claimGenerator (JObj [(''signature_info'', JBool False), (''signatureInfo'', JObj []),
                        (''claim_generator'', JNum 0), (''claimGenerator'', JStr ''app'')]) = Some ''app''
 \<and> signature_certSerial (JObj [(''cert_serial_number'', JNull), (''certSerialNumber'', JStr ''7'')]) = Some ''7''"
  using dual_lookup_falls_back_on_falsy
         [of "JObj [(''active_manifest'', JStr ''''), (''activeManifest'', JStr ''m''),
                    (''validation_status'', JNull), (''validationStatus'', JArr [])]"
             "JObj [(''signature_info'', JBool False), (''signatureInfo'', JObj []),
                    (''claim_generator'', JNum 0), (''claimGenerator'', JStr ''app'')]"
             "JObj [(''cert_serial_number'', JNull), (''certSerialNumber'', JStr ''7'')]"]
  by (simp add: string_or_null_def)

subsection \<open>Validation verdict\<close>










subsection \<open>Entries without a code\<close>



subsection \<open>Action extraction and action labels\<close>








subsection \<open>Author extraction\<close>








subsection \<open>Totality\<close>











subsection \<open>The two spellings\<close>

lemma map_of_rename_other:
  "k \<noteq> old \<Longrightarrow> k \<noteq> new \<Longrightarrow> map_of (rename_key old new kvs) k = map_of kvs k"
  by (induction kvs) (auto simp: rename_key_def)

lemma map_of_rename_old:
  "old \<noteq> new \<Longrightarrow> map_of (rename_key old new kvs) old = None"
  by (induction kvs) (auto simp: rename_key_def split: if_splits)

lemma keys_rename_key:
  "k \<notin> set (map fst kvs) \<Longrightarrow> k \<noteq> new \<Longrightarrow> k \<notin> set (map fst (rename_key old new kvs))"
  by (induction kvs) (auto simp: rename_key_def split: if_splits)

lemma map_of_rename_new:
  "new \<notin> set (map fst kvs) \<Longrightarrow> map_of (rename_key old new kvs) new = map_of kvs old"
  by (induction kvs) (auto simp: rename_key_def)

lemma map_of_map_field:
  "map_of (map_field key f kvs) k = (if k = key then map_option f (map_of kvs k) else map_of kvs k)"
  by (induction kvs) (auto simp: map_field_def)

lemma fst_map_field: "map fst (map_field key f kvs) = map fst kvs"
  by (induction kvs) (auto simp: map_field_def)

lemma not_in_keys_None: "k \<notin> set (map fst kvs) \<Longrightarrow> map_of kvs k = None"
  by (induction kvs) auto

lemma prop_absent: "\<not> has_key k v \<Longrightarrow> k \<noteq> ''length'' \<Longrightarrow> array_index k = None \<Longrightarrow> js_prop v k = JUndefined"
  by (cases v) (auto simp: not_in_keys_None)

lemma truthy_camel_signature [simp]: "truthy (camel_signature v) = truthy v"
  by (cases v) auto

lemma truthy_camel_manifest [simp]: "truthy (camel_manifest v) = truthy v"
  by (cases v) auto

lemma truthy_camel_manifests [simp]: "truthy (camel_manifests v) = truthy v"
  by (cases v) auto

lemma nullish_camel_store [simp]: "nullish (camel_store v) = nullish v"
  by (cases v) (auto simp: nullish_def)

lemma prop_camel_signature:
  "k \<noteq> ''cert_serial_number'' \<Longrightarrow> k \<noteq> ''certSerialNumber'' \<Longrightarrow>
   js_prop (camel_signature v) k = js_prop v k"
  by (cases v) (auto simp: map_of_rename_other)

lemma signerHtml_camel_signature: "signerHtml fd (camel_signature v) = signerHtml fd v"
  by (simp add: signerHtml_def signature_issuer_def signature_signedAt_def prop_camel_signature Let_def)

lemma prop_camel_manifest_other:
  "k \<notin> {''claim_generator'', ''claimGenerator'', ''signature_info'', ''signatureInfo''} \<Longrightarrow>
   js_prop (camel_manifest m) k = js_prop m k"
  by (cases m) (auto simp: map_of_rename_other map_of_map_field)

lemma signatureInfo_camel_manifest:
  assumes "snake_manifest m"
  shows "signerHtml fd (signatureInfo (camel_manifest m)) = signerHtml fd (signatureInfo m)"
proof (cases m)
  case (JObj kvs)
  let ?x = "js_prop m ''signature_info''"
  from assms JObj have nk: "''signatureInfo'' \<notin> set (map fst kvs)"
    by (simp add: snake_manifest_def)
  have a: "js_prop (camel_manifest m) ''signature_info'' = JUndefined"
    using JObj by (simp add: map_of_rename_other map_of_rename_old)
  have b: "js_prop (camel_manifest m) ''signatureInfo'' = camel_signature ?x"
    using JObj nk
    by (simp add: map_of_rename_other map_of_rename_new fst_map_field map_of_map_field
        split: option.splits)
  have c: "js_prop m ''signatureInfo'' = JUndefined"
    using JObj nk by (simp add: not_in_keys_None)
  have "signatureInfo (camel_manifest m) = camel_signature ?x"
    by (simp add: signatureInfo_def a b js_or_def)
  moreover have "signerHtml fd (signatureInfo m) = signerHtml fd ?x"
    by (simp add: signatureInfo_def c js_or_def signerHtml_def)
  ultimately show ?thesis by (simp add: signerHtml_camel_signature)
qed simp_all

lemma claimGenerator_camel_manifest:
  assumes "snake_manifest m"
  shows "claimGenerator (camel_manifest m) = claimGenerator m"
proof (cases m)
  case (JObj kvs)
  let ?x = "js_prop m ''claim_generator''"
  from assms JObj have nk: "''claimGenerator'' \<notin> set (map fst kvs)"
    by (simp add: snake_manifest_def)
  have a: "js_prop (camel_manifest m) ''claim_generator'' = JUndefined"
    using JObj by (simp add: map_of_rename_old)
  have "''claimGenerator'' \<notin> set (map fst (rename_key ''signature_info'' ''signatureInfo''
            (map_field ''signature_info'' camel_signature kvs)))"
    using nk by (intro keys_rename_key) (simp_all add: fst_map_field)
  from map_of_rename_new [OF this]
  have b: "js_prop (camel_manifest m) ''claimGenerator'' = ?x"
    using JObj by (simp add: map_of_rename_other map_of_map_field)
  have c: "js_prop m ''claimGenerator'' = JUndefined"
    using JObj nk by (simp add: not_in_keys_None)
  show ?thesis
    by (simp add: claimGenerator_def a b c js_or_def string_or_null_def)
qed simp_all


lemma certSerial_camel_signature:
  assumes "\<not> has_key ''certSerialNumber'' si"
  shows "signature_certSerial (camel_signature si) = signature_certSerial si"
proof (cases si)
  case (JObj kvs)
  with assms have nk: "''certSerialNumber'' \<notin> set (map fst kvs)" by simp
  have a: "js_prop (camel_signature si) ''cert_serial_number'' = JUndefined"
    using JObj by (simp add: map_of_rename_old)
  have b: "js_prop (camel_signature si) ''certSerialNumber'' = js_prop si ''cert_serial_number''"
    using JObj map_of_rename_new [OF nk] by simp
  have c: "js_prop si ''certSerialNumber'' = JUndefined"
    using JObj nk by (simp add: not_in_keys_None)
  show ?thesis
    by (simp add: signature_certSerial_def a b c js_or_def string_or_null_def)
qed simp_all

lemma activeManifestKey_camel_store:
  assumes "\<not> has_key ''activeManifest'' s"
  shows "truthy (activeManifestKey (camel_store s)) = truthy (activeManifestKey s)"
    and "truthy (activeManifestKey s) \<Longrightarrow> activeManifestKey (camel_store s) = activeManifestKey s"
proof -
  have "activeManifestKey (camel_store s) = js_prop s ''active_manifest''
        \<and> js_prop s ''activeManifest'' = JUndefined"
  proof (cases s)
    case (JObj kvs)
    with assms have nk: "''activeManifest'' \<notin> set (map fst kvs)" by simp
    then have nk': "''activeManifest'' \<notin> set (map fst (map_field ''manifests'' camel_manifests kvs))"
      by (simp add: fst_map_field)
    have a: "js_prop (camel_store s) ''active_manifest'' = JUndefined"
      using JObj by (simp add: map_of_rename_other map_of_rename_old)
    have b: "js_prop (camel_store s) ''activeManifest'' = js_prop s ''active_manifest''"
      using JObj map_of_rename_new [OF nk'] by (simp add: map_of_rename_other map_of_map_field)
    have c: "js_prop s ''activeManifest'' = JUndefined"
      using JObj nk by (simp add: not_in_keys_None)
    show ?thesis by (simp add: activeManifestKey_def a b c js_or_def)
  next
    case (JArr xs)
    then show ?thesis
      by (simp add: activeManifestKey_def js_or_def array_index_def is_digit_def)
  next
    case (JStr t)
    then show ?thesis
      by (simp add: activeManifestKey_def js_or_def array_index_def is_digit_def)
  qed (simp_all add: activeManifestKey_def js_or_def)
  then show "truthy (activeManifestKey (camel_store s)) = truthy (activeManifestKey s)"
    and "truthy (activeManifestKey s) \<Longrightarrow> activeManifestKey (camel_store s) = activeManifestKey s"
    by (auto simp: activeManifestKey_def js_or_def)
qed

lemma validationStatus_camel_store:
  assumes "\<not> has_key ''validationStatus'' s" and "list_or_absent (js_prop s ''validation_status'')"
  shows "validationIssues (validationStatus (camel_store s)) = validationIssues (validationStatus s)"
proof (cases s)
  case (JObj kvs)
  let ?x = "js_prop s ''validation_status''"
  from assms JObj have nk: "''validationStatus'' \<notin> set (map fst kvs)" by simp
  then have "''validationStatus'' \<notin> set (map fst (rename_key ''active_manifest'' ''activeManifest''
            (map_field ''manifests'' camel_manifests kvs)))"
    by (intro keys_rename_key) (simp_all add: fst_map_field)
  from map_of_rename_new [OF this]
  have b: "js_prop (camel_store s) ''validationStatus'' = ?x"
    using JObj by (simp add: map_of_rename_other map_of_map_field)
  have a: "js_prop (camel_store s) ''validation_status'' = JUndefined"
    using JObj by (simp add: map_of_rename_old)
  have c: "js_prop s ''validationStatus'' = JUndefined"
    using JObj nk by (simp add: not_in_keys_None)
  have "validationStatus (camel_store s) = ?x"
    by (simp add: validationStatus_def a b js_or_def)
  moreover have "validationIssues (validationStatus s) = validationIssues ?x"
    using assms(2) by (cases ?x) (simp_all add: validationStatus_def c js_or_def list_or_absent_def nullish_def)
  ultimately show ?thesis by simp
qed simp_all

lemma manifests_camel_store: "manifests (camel_store s) = camel_manifests (manifests s)"
  by (cases s)
     (auto simp: manifests_def map_of_rename_other map_of_map_field array_index_def is_digit_def
           split: option.splits)

lemma map_of_map_values:
  "map_of (map (\<lambda>(k, m). (k, f m)) kvs) k = map_option f (map_of kvs k)"
  by (induction kvs) auto

lemma map_of_list_all:
  "list_all (\<lambda>(k, m). P m) kvs \<Longrightarrow> map_of kvs k = Some m \<Longrightarrow> P m"
  by (induction kvs) (auto split: if_splits)

lemma prop_camel_manifests:
  "snake_manifests ms \<Longrightarrow>
   (js_prop (camel_manifests ms) k = camel_manifest (js_prop ms k) \<and> snake_manifest (js_prop ms k))
   \<or> (js_prop (camel_manifests ms) k = js_prop ms k \<and> camel_manifests ms = ms)"
proof (cases ms)
  case (JObj kvs)
  assume sn: "snake_manifests ms"
  show ?thesis
  proof (cases "map_of kvs k")
    case None
    then show ?thesis using JObj by (simp add: map_of_map_values snake_manifest_def)
  next
    case (Some m)
    with sn JObj have "snake_manifest m" using map_of_list_all [of snake_manifest kvs k m] by simp
    with Some show ?thesis using JObj by (simp add: map_of_map_values)
  qed
qed simp_all

lemma object_keys_length_camel_manifests:
  "object_keys_length (camel_manifests ms) = object_keys_length ms"
proof (cases ms)
  case (JObj kvs)
  have "map fst (map (\<lambda>(k, m). (k, camel_manifest m)) kvs) = map fst kvs"
    by (induction kvs) auto
  with JObj show ?thesis by (simp del: map_map)
qed simp_all

lemma statsHtml_camel_manifests:
  "statsHtml (camel_manifests ms) a i = statsHtml ms a i"
  by (simp add: statsHtml_def object_keys_length_camel_manifests)

lemma details_camel_manifest:
  assumes "snake_manifest m"
  shows "js_prop (camel_manifest m) ''title'' = js_prop m ''title''"
    and "js_prop (camel_manifest m) ''format'' = js_prop m ''format''"
    and "js_prop (camel_manifest m) ''assertions'' = js_prop m ''assertions''"
    and "js_prop (camel_manifest m) ''ingredients'' = js_prop m ''ingredients''"
  by (simp_all add: prop_camel_manifest_other)

lemma camel_store_same_details:
  assumes "snake_store s"
  shows "createCredentialDetails fd (camel_store s) = createCredentialDetails fd s"
proof -
  from assms have k: "\<not> has_key ''activeManifest'' s" and v: "\<not> has_key ''validationStatus'' s"
    and ms: "snake_manifests (manifests s)" and l: "list_or_absent (js_prop s ''validation_status'')"
    by (simp_all add: snake_store_def manifests_def)
  have g: "get (camel_store s) ''active_manifest'' = Inl TypeError \<longleftrightarrow> get s ''active_manifest'' = Inl TypeError"
    by (simp add: get_def)
  note tk = activeManifestKey_camel_store [OF k]
  note vs = validationStatus_camel_store [OF v l]
  show ?thesis
  proof (cases "nullish s")
    case True
    then show ?thesis by (simp add: createCredentialDetails_def get_def)
  next
    case nn: False
    show ?thesis
    proof (cases "truthy (activeManifestKey s) \<and> truthy (manifests s)")
      case False
      then have "activeManifest s = JUndefined" and "activeManifest (camel_store s) = JUndefined"
        using tk(1) by (auto simp: activeManifest_def manifests_camel_store)
      then show ?thesis using nn by (simp add: createCredentialDetails_def get_def)
    next
      case True
      let ?key = "js_String (activeManifestKey s)"
      from True have am: "activeManifest s = js_prop (manifests s) ?key"
        by (simp add: activeManifest_def)
      from True tk have am': "activeManifest (camel_store s) = js_prop (camel_manifests (manifests s)) ?key"
        by (simp add: activeManifest_def manifests_camel_store)
      from prop_camel_manifests [OF ms, of ?key]
      show ?thesis
      proof
        assume "js_prop (camel_manifests (manifests s)) ?key = js_prop (manifests s) ?key
                \<and> camel_manifests (manifests s) = manifests s"
        then show ?thesis
          using am am' nn vs
          by (simp add: createCredentialDetails_def get_def manifests_camel_store Let_def
              cong: sum.case_cong)
      next
        assume a: "js_prop (camel_manifests (manifests s)) ?key = camel_manifest (js_prop (manifests s) ?key)
                \<and> snake_manifest (js_prop (manifests s) ?key)"
        let ?m = "js_prop (manifests s) ?key"
        from a have sm: "snake_manifest ?m" by simp
        from a am' have e: "activeManifest (camel_store s) = camel_manifest ?m" by simp
        show ?thesis
          using nn vs
          by (simp add: createCredentialDetails_def get_def e am manifests_camel_store Let_def
              details_camel_manifest [OF sm] signatureInfo_camel_manifest [OF sm]
              claimGenerator_camel_manifest [OF sm] statsHtml_camel_manifests
              cong: sum.case_cong)
      qed
    qed
  qed
qed

text \<open>
  Claim C1. A manifest store written in snake_case and the same store written in
  camelCase give the same panel (or both throw): the active-manifest key, the validation
  status, the signature info, the claim generator and the certificate serial number are
  each read as \<^verbatim>\<open>snake || camel\<close>, the snake_case value when it is truthy, otherwise the
  camelCase value, which is \<^verbatim>\<open>undefined\<close> when the property is absent. The stores
  covered are those of the data model, whose validation status is a list or absent.
\<close>

theorem spelling_equivalence:
  "(snake_store s \<longrightarrow>
      createCredentialDetails formatDate (camel_store s) = createCredentialDetails formatDate s)
 \<and> (\<not> has_key ''certSerialNumber'' si \<longrightarrow>
      signature_certSerial (camel_signature si) = signature_certSerial si)
 \<and> activeManifestKey store =
      (if truthy (js_prop store ''active_manifest'') then js_prop store ''active_manifest''
       else js_prop store ''activeManifest'')
 \<and> validationStatus store =
      (if truthy (js_prop store ''validation_status'') then js_prop store ''validation_status''
       else js_prop store ''validationStatus'')
 \<and> signatureInfo m =
      (if truthy (js_prop m ''signature_info'') then js_prop m ''signature_info''
       else js_prop m ''signatureInfo'')
 \<and> claimGenerator m =
      string_or_null (if truthy (js_prop m ''claim_generator'') then js_prop m ''claim_generator''
                      else js_prop m ''claimGenerator'')
 \<and> signature_certSerial si =
      string_or_null (if truthy (js_prop si ''cert_serial_number'') then js_prop si ''cert_serial_number''
                      else js_prop si ''certSerialNumber'')
 \<and> (\<not> has_key ''active_manifest'' store \<and> \<not> has_key ''activeManifest'' store \<longrightarrow>
      activeManifestKey store = JUndefined)"
proof (intro conjI impI)
  assume "snake_store s"
  then show "createCredentialDetails formatDate (camel_store s) = createCredentialDetails formatDate s"
    by (rule camel_store_same_details)
next
  assume "\<not> has_key ''certSerialNumber'' si"
  then show "signature_certSerial (camel_signature si) = signature_certSerial si"
    by (rule certSerial_camel_signature)
next
  assume "\<not> has_key ''active_manifest'' store \<and> \<not> has_key ''activeManifest'' store"
  then show "activeManifestKey store = JUndefined"
    by (simp add: activeManifestKey_def js_or_def prop_absent array_index_def is_digit_def)
qed (simp_all add: activeManifestKey_def validationStatus_def signatureInfo_def claimGenerator_def
      signature_certSerial_def js_or_def)

theorem spelling_equivalence_witness:
  "snake_store
     (JObj [(''active_manifest'', JStr ''m''),
            (''validation_status'', JArr [JObj [(''code'', JStr ''assertion.dataHash.mismatch'')]]),
            (''manifests'', JObj [(''m'', JObj
               [(''claim_generator'', JStr ''app_x/1.0 lib''),
                (''signature_info'', JObj [(''issuer'', JStr ''CA''),
                                           (''cert_serial_number'', JStr ''42'')])])])])
 \<and> camel_store
     (JObj [(''active_manifest'', JStr ''m''),
            (''validation_status'', JArr [JObj [(''code'', JStr ''assertion.dataHash.mismatch'')]]),
            (''manifests'', JObj [(''m'', JObj
               [(''claim_generator'', JStr ''app_x/1.0 lib''),
                (''signature_info'', JObj [(''issuer'', JStr ''CA''),
                                           (''cert_serial_number'', JStr ''42'')])])])])
   = JObj [(''activeManifest'', JStr ''m''),
            (''validationStatus'', JArr [JObj [(''code'', JStr ''assertion.dataHash.mismatch'')]]),
            (''manifests'', JObj [(''m'', JObj
               [(''claimGenerator'', JStr ''app_x/1.0 lib''),
                (''signatureInfo'', JObj [(''issuer'', JStr ''CA''),
                                          (''certSerialNumber'', JStr ''42'')])])])]
 \<and> truthy (activeManifest
     (JObj [(''active_manifest'', JStr ''m''),
            (''validation_status'', JArr [JObj [(''code'', JStr ''assertion.dataHash.mismatch'')]]),
            (''manifests'', JObj [(''m'', JObj
               [(''claim_generator'', JStr ''app_x/1.0 lib''),
                (''signature_info'', JObj [(''issuer'', JStr ''CA''),
                                           (''cert_serial_number'', JStr ''42'')])])])]))
 \<and> createCredentialDetails id
     (JObj [(''activeManifest'', JStr ''m''),
            (''validationStatus'', JArr [JObj [(''code'', JStr ''assertion.dataHash.mismatch'')]]),
            (''manifests'', JObj [(''m'', JObj
               [(''claimGenerator'', JStr ''app_x/1.0 lib''),
                (''signatureInfo'', JObj [(''issuer'', JStr ''CA''),
                                          (''certSerialNumber'', JStr ''42'')])])])])
   = createCredentialDetails id
     (JObj [(''active_manifest'', JStr ''m''),
            (''validation_status'', JArr [JObj [(''code'', JStr ''assertion.dataHash.mismatch'')]]),
            (''manifests'', JObj [(''m'', JObj
               [(''claim_generator'', JStr ''app_x/1.0 lib''),
                (''signature_info'', JObj [(''issuer'', JStr ''CA''),
                                           (''cert_serial_number'', JStr ''42'')])])])])
 \<and> \<not> has_key ''certSerialNumber'' (JObj [(''issuer'', JStr ''CA''), (''cert_serial_number'', JStr ''42'')])
 \<and> signature_certSerial (JObj [(''issuer'', JStr ''CA''), (''certSerialNumber'', JStr ''42'')]) = Some ''42''
 \<and> \<not> has_key ''active_manifest'' (JObj [(''manifests'', JObj [])])
 \<and> \<not> has_key ''activeManifest'' (JObj [(''manifests'', JObj [])])
 \<and> activeManifestKey (JObj [(''manifests'', JObj [])]) = JUndefined"
  (is "snake_store ?s \<and> camel_store ?s = ?c \<and> _ \<and> _ \<and> \<not> has_key _ ?si \<and> _ \<and> \<not> has_key _ ?e \<and> _")
proof -
  have sn: "snake_store ?s"
    by (simp add: snake_store_def snake_manifest_def list_or_absent_def)
  have cs: "camel_store ?s = ?c"
    by (simp add: rename_key_def map_field_def)
  have tr: "truthy (activeManifest ?s)"
    by (simp add: activeManifest_def activeManifestKey_def manifests_def js_or_def)
  have nk: "\<not> has_key ''certSerialNumber'' ?si"
    by simp
  have ne: "\<not> has_key ''active_manifest'' ?e \<and> \<not> has_key ''activeManifest'' ?e"
    by simp
  note inst = spelling_equivalence [of ?s id ?si ?e]
  from inst sn have "createCredentialDetails id (camel_store ?s) = createCredentialDetails id ?s"
    by blast
  then have eq: "createCredentialDetails id ?c = createCredentialDetails id ?s"
    by (simp only: cs)
  from inst nk have "signature_certSerial (camel_signature ?si) = signature_certSerial ?si"
    by blast
  then have ser: "signature_certSerial (JObj [(''issuer'', JStr ''CA''), (''certSerialNumber'', JStr ''42'')]) = Some ''42''"
    by (simp add: rename_key_def signature_certSerial_def js_or_def string_or_null_def)
  from inst ne have un: "activeManifestKey ?e = JUndefined"
    by blast
  show ?thesis
    using sn cs tr eq nk ser ne un by blast
qed

subsection \<open>The highlighter on serialized JSON\<close>

lemma hex_alnum: "is_hex c \<Longrightarrow> is_alnum c"
  by (auto simp: is_hex_def is_alnum_def is_lower_def is_upper_def)

lemma quote_not_backslash [simp]: "quote_char \<noteq> backslash_char" "backslash_char \<noteq> quote_char"
  by (simp_all add: quote_char_def backslash_char_def)

lemma string_units_items:
  "list_all item_ok items \<Longrightarrow>
   string_units (concat (map item_text items) @ quote_char # rest) = length (concat (map item_text items))"
proof (induction items)
  case Nil
  then show ?case by simp
next
  case (Cons it items)
  then have IH: "string_units (concat (map item_text items) @ quote_char # rest)
                 = length (concat (map item_text items))"
    and ok: "item_ok it" by auto
  show ?case
  proof (cases it)
    case (Plain c)
    with ok IH show ?thesis by simp
  next
    case (Escape c)
    with ok have "c \<noteq> CHR ''u''" by (auto simp: quote_char_def backslash_char_def)
    with Escape IH show ?thesis by simp
  next
    case (Unicode h)
    with ok have l: "length h = 4" and a: "list_all is_alnum h"
      by (auto simp: list_all_iff hex_alnum)
    with Unicode IH show ?thesis by simp
  qed
qed

lemma match_string_text:
  "list_all item_ok items \<Longrightarrow>
   match_string (string_text items @ rest) = Some (length (string_text items) + colon_suffix rest)"
  by (simp add: match_string_def string_text_def string_units_items Let_def)

lemma colon_suffix_key:
  "list_all is_space ws \<Longrightarrow> colon_suffix (ws @ CHR '':'' # rest) = length ws + 1"
proof -
  assume a: "list_all is_space ws"
  have ns: "\<not> is_space CHR '':''" by (simp add: is_space_def)
  from a have "dropWhile is_space (ws @ CHR '':'' # rest) = CHR '':'' # rest"
    using ns by (induction ws) auto
  moreover from a have "takeWhile is_space (ws @ CHR '':'' # rest) = ws"
    using ns by (induction ws) auto
  ultimately show ?thesis by (simp add: colon_suffix_def)
qed


lemma last_string_text [simp]: "last (string_text items) = quote_char"
  by (simp add: string_text_def)

lemma string_text_nonempty [simp]: "string_text items \<noteq> []"
  by (simp add: string_text_def)

lemma hd_string_text [simp]: "hd (string_text items) = quote_char"
  by (simp add: string_text_def)

lemma quote_not_word [simp]: "\<not> is_word quote_char"
  by (simp add: is_word_def is_lower_def is_upper_def is_digit_def quote_char_def)

lemma colon_not_word [simp]: "\<not> is_word CHR '':''"
  by (simp add: is_word_def is_lower_def is_upper_def is_digit_def)

lemma token_class_string: "token_class (string_text items) = ''json-string''"
  by (simp add: token_class_def startsWith_def string_text_def quote_char_def)

lemma token_class_key: "token_class (string_text items @ ws @ '':'') = ''json-key''"
  by (simp add: token_class_def startsWith_def string_text_def)

lemma span_tagged: "span m = tagged (token_class m) m"
  by (simp add: span_def tagged_def)

lemma highlight_match:
  assumes "tok \<noteq> []" and "match_at pw (tok @ rest) = Some (length tok)"
  shows "highlight_from pw (tok @ rest) = span tok @ highlight_from (is_word (last tok)) rest"
  using assms by (cases tok) simp_all

lemma highlight_string:
  assumes "list_all item_ok items" and "colon_suffix rest = 0"
  shows "highlight_from pw (string_text items @ rest)
         = tagged ''json-string'' (string_text items) @ highlight_from False rest"
proof -
  have "match_at pw (string_text items @ rest) = Some (length (string_text items))"
    using match_string_text [OF assms(1), of rest] assms(2) by (simp add: match_at_def)
  from highlight_match [OF _ this] show ?thesis
    by (simp add: span_tagged token_class_string)
qed

lemma highlight_key:
  assumes "list_all item_ok items" and "list_all is_space ws"
  shows "highlight_from pw ((string_text items @ ws @ '':'') @ rest)
         = tagged ''json-key'' (string_text items @ ws @ '':'') @ highlight_from False rest"
proof -
  let ?tok = "string_text items @ ws @ '':''"
  have "match_string (string_text items @ (ws @ CHR '':'' # rest))
        = Some (length (string_text items) + (length ws + 1))"
    using match_string_text [OF assms(1)] colon_suffix_key [OF assms(2)] by simp
  then have "match_at pw (?tok @ rest) = Some (length ?tok)"
    by (simp add: match_at_def)
  from highlight_match [OF _ this] show ?thesis
    by (simp add: span_tagged token_class_key)
qed


lemma punct_char_facts:
  assumes "is_punct_char c"
  shows "c \<noteq> quote_char" and "\<not> is_digit c" and "c \<noteq> CHR ''-''" and "c \<noteq> CHR ''.''"
    and "c \<noteq> CHR ''e''" and "c \<noteq> CHR ''E''" and "\<not> is_word c" and "c \<noteq> CHR ''t''"
    and "c \<noteq> CHR ''f''" and "c \<noteq> CHR ''n''"
  using assms
  by (auto simp: is_punct_char_def is_space_def quote_char_def is_digit_def is_word_def
      is_lower_def is_upper_def)

lemma highlight_punct:
  assumes "is_punct_char c"
  shows "highlight_from pw (c # rest) = c # highlight_from False rest"
proof -
  note f = punct_char_facts [OF assms]
  have "match_string (c # rest) = None"
    using f(1) by (simp add: match_string_def)
  moreover have "match_literal pw (c # rest) = None"
    using f(8,9,10) by (simp add: match_literal_def startsWith_def)
  moreover have "match_number (c # rest) = None"
    using f(2,3) by (simp add: match_number_def startsWith_def digits_len_def)
  ultimately have "match_at pw (c # rest) = None"
    by (simp add: match_at_def)
  then show ?thesis using f(7) by simp
qed

lemma token_class_literals:
  "token_class ''true'' = ''json-boolean''"
  "token_class ''false'' = ''json-boolean''"
  "token_class ''null'' = ''json-null''"
  by code_simp+

lemma highlight_literal:
  assumes "lit \<in> set [''true'', ''false'', ''null'']" and "ends_word rest"
  shows "highlight_from False (lit @ rest) = span lit @ highlight_from True rest"
proof -
  have ne: "lit \<noteq> []" using assms(1) by auto
  have w: "is_word (last lit)"
    using assms(1) by (auto simp: is_word_def is_lower_def)
  have "match_string (lit @ rest) = None"
    using assms(1) by (auto simp: match_string_def quote_char_def)
  moreover have "match_literal False (lit @ rest) = Some (length lit)"
    using assms by (auto simp: match_literal_def startsWith_def)
  ultimately have "match_at False (lit @ rest) = Some (length lit)"
    by (simp add: match_at_def)
  from highlight_match [OF ne this] w show ?thesis by simp
qed


lemma digits_len_append:
  assumes "list_all is_digit ds" and "rest = [] \<or> \<not> is_digit (hd rest)"
  shows "digits_len (ds @ rest) = length ds"
proof -
  have "takeWhile is_digit rest = []"
    using assms(2) by (cases rest) auto
  then show ?thesis
    using assms(1) by (induction ds) (auto simp: digits_len_def)
qed

lemma digit_facts:
  assumes "is_digit c"
  shows "c \<noteq> CHR ''+''" and "c \<noteq> CHR ''-''" and "c \<noteq> quote_char" and "c \<noteq> CHR ''t''"
    and "c \<noteq> CHR ''f''" and "c \<noteq> CHR ''n''" and "\<not> is_space c" and "c \<noteq> CHR '':''"
  using assms by (auto simp: is_digit_def quote_char_def is_space_def)

lemma exponent_len_text:
  assumes "case ex of None \<Rightarrow> True
           | Some (e, sg, ds) \<Rightarrow> (e = CHR ''e'' \<or> e = CHR ''E'') \<and> sg \<in> set [[], ''+'', ''-'']
                                \<and> ds \<noteq> [] \<and> list_all is_digit ds"
    and "rest = [] \<or> is_punct_char (hd rest)"
  shows "exponent_len ((case ex of None \<Rightarrow> [] | Some (e, sg, ds) \<Rightarrow> e # sg @ ds) @ rest)
         = length (case ex of None \<Rightarrow> [] | Some (e, sg, ds) \<Rightarrow> e # sg @ ds)"
proof (cases ex)
  case None
  show ?thesis
  proof (cases rest)
    case Nil
    with None show ?thesis by (simp add: exponent_len_def)
  next
    case (Cons c r)
    with assms(2) have "c \<noteq> CHR ''e''" "c \<noteq> CHR ''E''"
      using punct_char_facts by auto
    with None Cons show ?thesis by (simp add: exponent_len_def)
  qed
next
  case (Some t)
  obtain e sg ds where t: "t = (e, sg, ds)" by (cases t) auto
  with assms(1) Some have e: "e = CHR ''e'' \<or> e = CHR ''E''" and sg: "sg = [] \<or> sg = ''+'' \<or> sg = ''-''"
    and ds: "ds \<noteq> []" "list_all is_digit ds" by auto
  from assms(2) have nd: "rest = [] \<or> \<not> is_digit (hd rest)"
    using punct_char_facts(2) by auto
  have dl: "digits_len (ds @ rest) = length ds"
    using digits_len_append [OF ds(2) nd] .
  from ds obtain d ds' where dd: "ds = d # ds'" and "is_digit d" by (cases ds) auto
  then have dn: "d \<noteq> CHR ''+''" "d \<noteq> CHR ''-''" using digit_facts by auto
  from sg show ?thesis
  proof (elim disjE)
    assume "sg = []"
    then show ?thesis
      using Some t e dl dn dd by (auto simp: exponent_len_def Let_def)
  next
    assume "sg = ''+''"
    then show ?thesis
      using Some t e dl ds(1) by (auto simp: exponent_len_def Let_def)
  next
    assume "sg = ''-''"
    then show ?thesis
      using Some t e dl ds(1) by (auto simp: exponent_len_def Let_def)
  qed
qed

lemma fraction_len_text:
  assumes "case frac of None \<Rightarrow> True | Some f \<Rightarrow> list_all is_digit f"
    and "tail = [] \<or> (\<not> is_digit (hd tail) \<and> hd tail \<noteq> CHR ''.'')"
  shows "fraction_len ((case frac of None \<Rightarrow> [] | Some f \<Rightarrow> CHR ''.'' # f) @ tail)
         = length (case frac of None \<Rightarrow> [] | Some f \<Rightarrow> CHR ''.'' # f)"
proof (cases frac)
  case None
  with assms(2) show ?thesis by (cases tail) (auto simp: fraction_len_def)
next
  case (Some f)
  with assms have "digits_len (f @ tail) = length f"
    by (intro digits_len_append) auto
  with Some show ?thesis by (simp add: fraction_len_def)
qed

lemma occurs_in_hd: "occurs_in p m \<Longrightarrow> p \<noteq> [] \<Longrightarrow> hd p \<in> set m"
proof -
  assume "occurs_in p m" and ne: "p \<noteq> []"
  then obtain i where t: "take (length p) (drop i m) = p"
    by (auto simp: occurs_in_def startsWith_def list_ex_iff)
  have "set (take (length p) (drop i m)) \<subseteq> set m"
    using set_take_subset [of "length p" "drop i m"] set_drop_subset [of i m] by blast
  with t have "set p \<subseteq> set m" by simp
  with ne show ?thesis by (cases p) auto
qed

lemma number_chars:
  assumes "token_ok (TNumber neg ip frac ex)" and "c \<in> set (token_text (TNumber neg ip frac ex))"
  shows "is_digit c \<or> c = CHR ''-'' \<or> c = CHR ''.'' \<or> c = CHR ''e'' \<or> c = CHR ''E'' \<or> c = CHR ''+''"
proof -
  from assms(2) consider "c = CHR ''-''" | "c \<in> set ip"
    | "c \<in> set (case frac of None \<Rightarrow> [] | Some f \<Rightarrow> CHR ''.'' # f)"
    | "c \<in> set (case ex of None \<Rightarrow> [] | Some (e, sg, ds) \<Rightarrow> e # sg @ ds)"
    by (auto split: if_splits)
  then show ?thesis
  proof cases
    case 1
    then show ?thesis by simp
  next
    case 2
    with assms(1) show ?thesis by (auto simp: list_all_iff)
  next
    case 3
    with assms(1) show ?thesis by (cases frac) (auto simp: list_all_iff)
  next
    case 4
    show ?thesis
    proof (cases ex)
      case None
      with 4 show ?thesis by simp
    next
      case (Some t)
      obtain e sg ds where t: "t = (e, sg, ds)" by (cases t) auto
      from assms(1) Some t have e: "e = CHR ''e'' \<or> e = CHR ''E''"
        and sg: "sg = [] \<or> sg = ''+'' \<or> sg = ''-''" and ds: "list_all is_digit ds"
        by auto
      from 4 Some t have "c = e \<or> c \<in> set sg \<or> c \<in> set ds" by auto
      then show ?thesis using e sg ds by (auto simp: list_all_iff)
    qed
  qed
qed

lemma token_class_number:
  assumes "token_ok (TNumber neg ip frac ex)"
  shows "token_class (token_text (TNumber neg ip frac ex)) = ''json-number''"
proof -
  define m where "m = token_text (TNumber neg ip frac ex)"
  have c: "\<And>c. c \<in> set m \<Longrightarrow>
     is_digit c \<or> c = CHR ''-'' \<or> c = CHR ''.'' \<or> c = CHR ''e'' \<or> c = CHR ''E'' \<or> c = CHR ''+''"
    unfolding m_def using number_chars [OF assms] by blast
  have t: "CHR ''t'' \<notin> set m"
    using c [of "CHR ''t''"] by (auto simp: is_digit_def)
  have f: "CHR ''f'' \<notin> set m"
    using c [of "CHR ''f''"] by (auto simp: is_digit_def)
  have n: "CHR ''n'' \<notin> set m"
    using c [of "CHR ''n''"] by (auto simp: is_digit_def)
  have q: "quote_char \<notin> set m"
    using c [of quote_char] by (auto simp: is_digit_def quote_char_def)
  have "\<not> occurs_in ''true'' m"
    using occurs_in_hd [of "''true''" m] t by auto
  moreover have "\<not> occurs_in ''false'' m"
    using occurs_in_hd [of "''false''" m] f by auto
  moreover have "\<not> occurs_in ''null'' m"
    using occurs_in_hd [of "''null''" m] n by auto
  moreover have "\<not> startsWith m [quote_char]"
  proof
    assume "startsWith m [quote_char]"
    then have "quote_char \<in> set m"
      by (cases m) (auto simp: startsWith_def)
    with q show False by simp
  qed
  ultimately have "token_class m = ''json-number''"
    by (simp add: token_class_def)
  then show ?thesis by (simp only: m_def)
qed

lemma match_number_parts:
  assumes "sn = [] \<or> sn = ''-''" and "ip \<noteq> []" and "list_all is_digit ip"
    and "digits_len (ip @ frs @ exs @ rest) = length ip"
    and "fraction_len (frs @ exs @ rest) = length frs"
    and "exponent_len (exs @ rest) = length exs"
  shows "match_number (sn @ ip @ frs @ exs @ rest)
         = Some (length sn + length ip + length frs + length exs)"
proof -
  from assms(2,3) obtain d ip' where d: "ip = d # ip'" "is_digit d" by (cases ip) auto
  then have dm: "d \<noteq> CHR ''-''" using digit_facts(2) by blast
  from assms(1) show ?thesis
  proof
    assume e: "sn = []"
    have "\<not> startsWith (ip @ frs @ exs @ rest) ''-''"
      using d dm by (simp add: startsWith_def)
    then show ?thesis
      using assms(2,4,5,6) e by (simp add: match_number_def Let_def)
  next
    assume m: "sn = ''-''"
    have "startsWith (''-'' @ ip @ frs @ exs @ rest) ''-''"
      by (simp add: startsWith_def)
    then show ?thesis
      using assms(2,4,5,6) m by (simp add: match_number_def Let_def)
  qed
qed

lemma match_number_text:
  assumes ok: "token_ok (TNumber neg ip frac ex)" and rest: "rest = [] \<or> is_punct_char (hd rest)"
  shows "match_number (token_text (TNumber neg ip frac ex) @ rest)
         = Some (length (token_text (TNumber neg ip frac ex)))"
proof -
  let ?sgn = "if neg then ''-'' else []"
  let ?frs = "case frac of None \<Rightarrow> [] | Some f \<Rightarrow> CHR ''.'' # f"
  let ?exs = "case ex of None \<Rightarrow> [] | Some (e, sg, ds) \<Rightarrow> e # sg @ ds"
  let ?tail = "?exs @ rest"
  let ?tail1 = "?frs @ ?tail"
  from ok have ip: "ip \<noteq> []" "list_all is_digit ip" by auto
  have ex_len: "exponent_len ?tail = length ?exs"
    using ok rest by (intro exponent_len_text) auto
  have tail: "?tail = [] \<or> (\<not> is_digit (hd ?tail) \<and> hd ?tail \<noteq> CHR ''.'')"
  proof (cases ex)
    case None
    with rest show ?thesis using punct_char_facts(2,4) by auto
  next
    case (Some t)
    with ok show ?thesis by (auto simp: is_digit_def split: prod.splits)
  qed
  have fr_len: "fraction_len ?tail1 = length ?frs"
    using ok tail by (intro fraction_len_text) auto
  have tail1: "?tail1 = [] \<or> \<not> is_digit (hd ?tail1)"
    using tail by (cases frac) (auto simp: is_digit_def)
  have int_len: "digits_len (ip @ ?tail1) = length ip"
    using digits_len_append [OF ip(2) tail1] .
  have sg: "?sgn = [] \<or> ?sgn = ''-''" by simp
  from match_number_parts [OF sg ip int_len fr_len ex_len]
  show ?thesis by simp
qed

lemma highlight_number:
  assumes ok: "token_ok (TNumber neg ip frac ex)" and rest: "rest = [] \<or> is_punct_char (hd rest)"
  shows "highlight_from pw (token_text (TNumber neg ip frac ex) @ rest)
         = tagged ''json-number'' (token_text (TNumber neg ip frac ex))
           @ highlight_from (is_word (last (token_text (TNumber neg ip frac ex)))) rest"
proof -
  define m where "m = token_text (TNumber neg ip frac ex)"
  from ok obtain d ip' where d: "ip = d # ip'" "is_digit d" by (cases ip) auto
  obtain c m' where m: "m = c # m'" and c: "c = CHR ''-'' \<or> is_digit c"
    using d by (cases neg) (auto simp: m_def)
  have cq: "c \<noteq> quote_char" "c \<noteq> CHR ''t''" "c \<noteq> CHR ''f''" "c \<noteq> CHR ''n''"
    using c by (auto simp: quote_char_def is_digit_def)
  have "match_string (m @ rest) = None"
    using cq(1) by (simp add: m match_string_def)
  moreover have "match_literal pw (m @ rest) = None"
    using cq by (simp add: m match_literal_def startsWith_def)
  moreover have "match_number (m @ rest) = Some (length m)"
    using match_number_text [OF ok rest] by (simp only: m_def)
  ultimately have "match_at pw (m @ rest) = Some (length m)"
    by (simp add: match_at_def)
  moreover have "m \<noteq> []" using m by simp
  ultimately have "highlight_from pw (m @ rest) = span m @ highlight_from (is_word (last m)) rest"
    by (rule highlight_match [rotated])
  moreover have "token_class m = ''json-number''"
    unfolding m_def by (rule token_class_number [OF ok])
  ultimately show ?thesis
    by (simp only: span_tagged m_def)
qed

lemma token_text_first:
  assumes "token_ok t"
  shows "(\<exists>c. t = TPunct c \<and> is_space c)
       \<or> (\<exists>c more. token_text t = c # more \<and> \<not> is_space c \<and> c \<noteq> CHR '':'')"
proof (cases t)
  case (TString items)
  then show ?thesis by (simp add: string_text_def quote_char_def is_space_def)
next
  case (TKey items ws)
  then show ?thesis by (simp add: string_text_def quote_char_def is_space_def)
next
  case (TNumber neg ip frac ex)
  with assms obtain d ip' where d: "ip = d # ip'" "is_digit d" by (cases ip) auto
  show ?thesis
  proof (cases neg)
    case True
    with TNumber show ?thesis by (simp add: is_space_def)
  next
    case False
    with TNumber d show ?thesis using digit_facts(7,8) by simp
  qed
next
  case (TPunct c)
  with assms show ?thesis by (auto simp: is_punct_char_def)
qed (simp_all add: is_space_def)

lemma colon_suffix_tokens:
  "list_all token_ok ts \<Longrightarrow> colon_suffix (json_text ts) = 0"
proof -
  assume ok: "list_all token_ok ts"
  have "case dropWhile is_space (json_text ts) of [] \<Rightarrow> True | c # r \<Rightarrow> c \<noteq> CHR '':''"
    using ok
  proof (induction ts)
    case Nil
    then show ?case by (simp add: json_text_def)
  next
    case (Cons t ts)
    then have IH: "case dropWhile is_space (json_text ts) of [] \<Rightarrow> True | c # r \<Rightarrow> c \<noteq> CHR '':''"
      and t: "token_ok t" by auto
    have j: "json_text (t # ts) = token_text t @ json_text ts"
      by (simp add: json_text_def)
    from token_text_first [OF t] show ?case
    proof
      assume "\<exists>c. t = TPunct c \<and> is_space c"
      then show ?thesis using IH j by auto
    next
      assume "\<exists>c more. token_text t = c # more \<and> \<not> is_space c \<and> c \<noteq> CHR '':''"
      then show ?thesis using j by auto
    qed
  qed
  then show ?thesis
  proof (cases "dropWhile is_space (json_text ts)")
    case Nil
    show ?thesis unfolding colon_suffix_def Nil by simp
  next
    case (Cons c r)
    assume "case dropWhile is_space (json_text ts) of [] \<Rightarrow> True | c # r \<Rightarrow> c \<noteq> CHR '':''"
    then have "c \<noteq> CHR '':''" unfolding Cons by simp
    then show ?thesis unfolding colon_suffix_def Cons by simp
  qed
qed

lemma punct_head:
  assumes "list_all token_ok ts" and "ts = [] \<or> is_punct (hd ts)"
  shows "json_text ts = [] \<or> is_punct_char (hd (json_text ts))"
proof (cases ts)
  case Nil
  then show ?thesis by (simp add: json_text_def)
next
  case (Cons t ts')
  with assms(2) obtain c where "t = TPunct c" by (cases t) auto
  with Cons assms(1) show ?thesis by (simp add: json_text_def)
qed

lemma punct_ends_word: "s = [] \<or> is_punct_char (hd s) \<Longrightarrow> ends_word s"
  using punct_char_facts(7) by (cases s) (auto simp: ends_word_def)

lemma delimited_tail: "delimited (t # ts) \<Longrightarrow> delimited ts"
  by (cases ts) auto

lemma delimited_next: "delimited (t # ts) \<Longrightarrow> is_atom t \<Longrightarrow> ts = [] \<or> is_punct (hd ts)"
  by (cases ts) auto

lemma json_text_Cons: "json_text (t # ts) = token_text t @ json_text ts"
  by (simp add: json_text_def)

lemma json_markup_Cons: "json_markup (t # ts) = token_markup t @ json_markup ts"
  by (simp add: json_markup_def)

lemma highlight_tokens:
  "list_all token_ok ts \<Longrightarrow> delimited ts \<Longrightarrow> (pw \<longrightarrow> ts = [] \<or> is_punct (hd ts)) \<Longrightarrow>
   highlight_from pw (json_text ts) = json_markup ts"
proof (induction ts arbitrary: pw)
  case Nil
  then show ?case by (simp add: json_text_def json_markup_def)
next
  case (Cons t ts)
  then have ok: "token_ok t" and oks: "list_all token_ok ts" and del: "delimited ts"
    using delimited_tail by auto
  note jt = json_text_Cons and jm = json_markup_Cons
  have IH: "\<And>b. (b \<longrightarrow> ts = [] \<or> is_punct (hd ts)) \<Longrightarrow>
            highlight_from b (json_text ts) = json_markup ts"
    using Cons.IH oks del by blast
  have atom: "is_atom t \<Longrightarrow> ts = [] \<or> is_punct (hd ts)"
    using delimited_next Cons.prems(2) by blast
  from Cons.prems(3) have pw: "pw \<Longrightarrow> is_punct t" by simp
  show ?case
  proof (cases t)
    case (TString items)
    with ok have "highlight_from pw (string_text items @ json_text ts)
         = tagged ''json-string'' (string_text items) @ highlight_from False (json_text ts)"
      using highlight_string colon_suffix_tokens [OF oks] by simp
    with TString show ?thesis using IH [of False] by (simp add: jt jm)
  next
    case (TKey items ws)
    with ok have "highlight_from pw ((string_text items @ ws @ '':'') @ json_text ts)
         = tagged ''json-key'' (string_text items @ ws @ '':'') @ highlight_from False (json_text ts)"
      using highlight_key by simp
    with TKey show ?thesis using IH [of False] by (simp add: jt jm)
  next
    case (TNumber neg ip frac ex)
    then have nx: "ts = [] \<or> is_punct (hd ts)" using atom by simp
    have "highlight_from pw (token_text t @ json_text ts)
         = tagged ''json-number'' (token_text t)
           @ highlight_from (is_word (last (token_text t))) (json_text ts)"
      unfolding TNumber
      using ok punct_head [OF oks nx] by (intro highlight_number) (simp_all add: TNumber)
    then show ?thesis
      using IH [of "is_word (last (token_text t))"] nx by (simp add: jt jm TNumber)
  next
    case TTrue
    then have nx: "ts = [] \<or> is_punct (hd ts)" using atom by simp
    from TTrue pw have np: "\<not> pw" by auto
    have "highlight_from False (''true'' @ json_text ts) = span ''true'' @ highlight_from True (json_text ts)"
      using punct_ends_word [OF punct_head [OF oks nx]] by (intro highlight_literal) simp_all
    then show ?thesis
      using IH [of True] nx np TTrue by (simp add: jt jm span_tagged token_class_literals)
  next
    case TFalse
    then have nx: "ts = [] \<or> is_punct (hd ts)" using atom by simp
    from TFalse pw have np: "\<not> pw" by auto
    have "highlight_from False (''false'' @ json_text ts) = span ''false'' @ highlight_from True (json_text ts)"
      using punct_ends_word [OF punct_head [OF oks nx]] by (intro highlight_literal) simp_all
    then show ?thesis
      using IH [of True] nx np TFalse by (simp add: jt jm span_tagged token_class_literals)
  next
    case TNull
    then have nx: "ts = [] \<or> is_punct (hd ts)" using atom by simp
    from TNull pw have np: "\<not> pw" by auto
    have "highlight_from False (''null'' @ json_text ts) = span ''null'' @ highlight_from True (json_text ts)"
      using punct_ends_word [OF punct_head [OF oks nx]] by (intro highlight_literal) simp_all
    then show ?thesis
      using IH [of True] nx np TNull by (simp add: jt jm span_tagged token_class_literals)
  next
    case (TPunct c)
    with ok have "highlight_from pw (c # json_text ts) = c # highlight_from False (json_text ts)"
      using highlight_punct by simp
    with TPunct show ?thesis using IH [of False] by (simp add: jt jm)
  qed
qed

text \<open>
  Claim C6. On every text made of JSON tokens, a number or a literal being followed by
  text between tokens or by the end, the highlighter wraps each string, number, boolean
  literal and null literal in a \<^verbatim>\<open>span\<close> whose class names its category, wraps a string
  followed by blanks and a colon as a key (colon included) and not as a string, and
  leaves the blanks, braces, brackets and commas between tokens as they are; escaped
  characters inside a string, the escaped quote among them, do not end the string. On
  the text \<^verbatim>\<open>{"a":1,"b":"x\"y"}\<close> the keys \<^verbatim>\<open>"a":\<close> and \<^verbatim>\<open>"b":\<close>, the number
  \<^verbatim>\<open>1\<close> and the single string \<^verbatim>\<open>"x\"y"\<close> are tagged.
\<close>

theorem highlighter_tags_every_token:
  \<open>(list_all token_ok ts \<and> delimited ts \<longrightarrow> syntaxHighlight (json_text ts) = json_markup ts)
 \<and> syntaxHighlight (''{"a":1,"b":"x'' @ [backslash_char] @ ''"y"}'')
     = ''{<span class="json-key">"a":</span><span class="json-number">1</span>,''
       @ ''<span class="json-key">"b":</span><span class="json-string">"x''
       @ [backslash_char] @ ''"y"</span>}''\<close>
proof (intro conjI impI)
  assume "list_all token_ok ts \<and> delimited ts"
  then show "syntaxHighlight (json_text ts) = json_markup ts"
    by (simp add: syntaxHighlight_def highlight_tokens)
next
  show \<open>syntaxHighlight (''{"a":1,"b":"x'' @ [backslash_char] @ ''"y"}'')
     = ''{<span class="json-key">"a":</span><span class="json-number">1</span>,''
       @ ''<span class="json-key">"b":</span><span class="json-string">"x''
       @ [backslash_char] @ ''"y"</span>}''\<close>
    by (simp add: syntaxHighlight_def match_at_def match_string_def match_literal_def
        match_number_def quote_char_def backslash_char_def colon_suffix_def is_space_def
        startsWith_def digits_len_def is_digit_def fraction_len_def exponent_len_def span_def
        token_class_def occurs_in_def is_word_def is_lower_def is_upper_def ends_word_def Let_def)
qed

theorem highlighter_tags_every_token_witness:
  \<open>list_all token_ok
     [TPunct CHR ''['', TTrue, TPunct CHR '','', TPunct CHR '' '',
      TNumber True ''1'' (Some ''5'') (Some (CHR ''e'', ''+'', ''3'')), TPunct CHR '','',
      TKey [Plain CHR ''k'', Escape quote_char] '' '', TNull, TPunct CHR '']'']
 \<and> delimited
     [TPunct CHR ''['', TTrue, TPunct CHR '','', TPunct CHR '' '',
      TNumber True ''1'' (Some ''5'') (Some (CHR ''e'', ''+'', ''3'')), TPunct CHR '','',
      TKey [Plain CHR ''k'', Escape quote_char] '' '', TNull, TPunct CHR '']'']
 \<and> syntaxHighlight (''[true, -1.5e+3,"k'' @ [backslash_char] @ ''"" :null]'')
     = ''[<span class="json-boolean">true</span>, <span class="json-number">-1.5e+3</span>,''
       @ ''<span class="json-key">"k'' @ [backslash_char] @ ''"" :</span>''
       @ ''<span class="json-null">null</span>]''\<close>
  (is "list_all token_ok ?ts \<and> _ \<and> _")
proof -
  have ok: "list_all token_ok ?ts"
    by (simp add: is_punct_char_def is_space_def is_digit_def quote_char_def backslash_char_def)
  have de: "delimited ?ts"
    by simp
  have "syntaxHighlight (json_text ?ts) = json_markup ?ts"
    using highlighter_tags_every_token [of ?ts] ok de by blast
  then show ?thesis
    using ok de
    by (simp add: json_text_def json_markup_def string_text_def tagged_def quote_char_def
        backslash_char_def)
qed

end
